theory Spec2Isabelle
  imports Complex_Main "HOL-Library.Monad_Syntax" "HOL-Library.AList"
begin

section \<open>JSON values\<close>

text \<open>
  The program handles JSON through the nlohmann::json library. A JSON value is modelled
  as a datatype; an object is an association list read with \<open>map_of\<close>. The text parser
  of the library, \<^verbatim>\<open>nlohmann::json::parse\<close>, is not part of the repository: it is a
  parameter \<open>parse\<close> of every function that calls it, with \<open>None\<close> for the exception it
  throws on malformed text.
\<close>

datatype json =
    JNull
  | JBool bool
  | JInt int
  | JFloat real
  | JString string
  | JArray "json list"
  | JObject "(string \<times> json) list"

type_synonym json_parse = "string \<Rightarrow> json option"

text \<open>The accessors of the library that the program uses. \<open>None\<close> is a thrown
  \<^verbatim>\<open>nlohmann::json::type_error\<close>, a subclass of \<^verbatim>\<open>std::exception\<close>.\<close>

fun json_contains :: "json \<Rightarrow> string \<Rightarrow> bool" where
  "json_contains (JObject kvs) k = (case map_of kvs k of None \<Rightarrow> False | Some v \<Rightarrow> True)"
| "json_contains j k = False"

text \<open>\<^verbatim>\<open>j[key]\<close> on a constant value; the program only reads it behind
  \<^verbatim>\<open>j.contains(key)\<close>.\<close>

fun json_at :: "json \<Rightarrow> string \<Rightarrow> json" where
  "json_at (JObject kvs) k = (case map_of kvs k of None \<Rightarrow> JNull | Some v \<Rightarrow> v)"
| "json_at j k = JNull"

fun get_string :: "json \<Rightarrow> string option" where
  "get_string (JString s) = Some s"
| "get_string j = None"

fun get_bool :: "json \<Rightarrow> bool option" where
  "get_bool (JBool b) = Some b"
| "get_bool j = None"

text \<open>\<^verbatim>\<open>static_cast<int>\<close> of a 64-bit integer: the low 32 bits, read as two's
  complement.\<close>

definition to_int32 :: "int \<Rightarrow> int" where
  "to_int32 n = (n + 2 ^ 31) mod 2 ^ 32 - 2 ^ 31"

text \<open>\<^verbatim>\<open>get<int>()\<close> accepts every number and a boolean; a floating-point number is
  truncated towards zero.\<close>

fun get_int :: "json \<Rightarrow> int option" where
  "get_int (JInt n) = Some (to_int32 n)"
| "get_int (JFloat r) = Some (to_int32 (if 0 \<le> r then \<lfloor>r\<rfloor> else \<lceil>r\<rceil>))"
| "get_int (JBool b) = Some (if b then 1 else 0)"
| "get_int j = None"

text \<open>\<^verbatim>\<open>j.value(key, default)\<close>: throws unless \<open>j\<close> is an object; the default when the
  key is absent; otherwise the conversion of the stored value, which throws on a value of
  another type.\<close>

fun value_string :: "json \<Rightarrow> string \<Rightarrow> string \<Rightarrow> string option" where
  "value_string (JObject kvs) k d =
     (case map_of kvs k of None \<Rightarrow> Some d | Some v \<Rightarrow> get_string v)"
| "value_string j k d = None"

fun value_int :: "json \<Rightarrow> string \<Rightarrow> int \<Rightarrow> int option" where
  "value_int (JObject kvs) k d =
     (case map_of kvs k of None \<Rightarrow> Some d | Some v \<Rightarrow> get_int v)"
| "value_int j k d = None"

fun value_bool :: "json \<Rightarrow> string \<Rightarrow> bool \<Rightarrow> bool option" where
  "value_bool (JObject kvs) k d =
     (case map_of kvs k of None \<Rightarrow> Some d | Some v \<Rightarrow> get_bool v)"
| "value_bool j k d = None"

fun is_array :: "json \<Rightarrow> bool" where
  "is_array (JArray xs) = True"
| "is_array j = False"

fun array_items :: "json \<Rightarrow> json list" where
  "array_items (JArray xs) = xs"
| "array_items j = []"


section \<open>Protocol types (core/types.hpp, api/claude_types.hpp)\<close>

text \<open>\<^verbatim>\<open>TokenUsage\<close>: four 64-bit signed counters. They are modelled as unbounded
  integers: every addend comes from a 32-bit \<^verbatim>\<open>int\<close> (see \<open>from_json_TokenUsage\<close>), and
  signed overflow of the counters is undefined behaviour in C++, outside the model.\<close>

record TokenUsage =
  input_tokens :: int
  output_tokens :: int
  cache_read_tokens :: int
  cache_creation_tokens :: int

definition TokenUsage_default :: TokenUsage where
  "TokenUsage_default =
     \<lparr>input_tokens = 0, output_tokens = 0, cache_read_tokens = 0, cache_creation_tokens = 0\<rparr>"

text \<open>\<^verbatim>\<open>TokenUsage::operator+=\<close>\<close>

definition usage_add :: "TokenUsage \<Rightarrow> TokenUsage \<Rightarrow> TokenUsage" where
  "usage_add u other =
     \<lparr>input_tokens = input_tokens u + input_tokens other,
      output_tokens = output_tokens u + output_tokens other,
      cache_read_tokens = cache_read_tokens u + cache_read_tokens other,
      cache_creation_tokens = cache_creation_tokens u + cache_creation_tokens other\<rparr>"

text \<open>\<^verbatim>\<open>ContentBlock\<close>: a variant of four structs; a default-constructed one holds
  the first alternative, \<^verbatim>\<open>TextContent{""}\<close>.\<close>

datatype ContentBlock =
    TextContent (block_text: string)
  | ToolUseContent (tool_id: string) (tool_name: string) (tool_input: json)
  | ToolResultContent (tool_use_id: string) (result_content: string) (is_error: bool)
  | ThinkingContent (block_thinking: string)

datatype MessageRole = User | Assistant

record ClaudeMessage =
  role :: MessageRole
  content :: "ContentBlock list"

datatype StopReason = EndTurn | MaxTokens | ToolUse | StopSequence

definition stop_reason_from_str :: "string \<Rightarrow> StopReason" where
  "stop_reason_from_str s =
     (if s = ''end_turn'' then EndTurn
      else if s = ''max_tokens'' then MaxTokens
      else if s = ''tool_use'' then ToolUse
      else if s = ''stop_sequence'' then StopSequence
      else EndTurn)"

record CreateMessageResponse =
  resp_id :: string
  resp_model :: string
  resp_stop_reason :: "StopReason option"
  resp_content :: "ContentBlock list"
  resp_usage :: TokenUsage

datatype StreamEventType =
    MessageStart
  | ContentBlockStart
  | ContentBlockDelta
  | ContentBlockStop
  | MessageDelta
  | MessageStop
  | Ping
  | Error

definition stream_event_type_from_str :: "string \<Rightarrow> StreamEventType" where
  "stream_event_type_from_str s =
     (if s = ''message_start'' then MessageStart
      else if s = ''content_block_start'' then ContentBlockStart
      else if s = ''content_block_delta'' then ContentBlockDelta
      else if s = ''content_block_stop'' then ContentBlockStop
      else if s = ''message_delta'' then MessageDelta
      else if s = ''message_stop'' then MessageStop
      else if s = ''ping'' then Ping
      else Error)"

text \<open>\<^verbatim>\<open>struct ContentBlockDelta\<close>\<close>

record BlockDelta =
  delta_index :: int
  delta_type :: string
  delta_text :: string
  delta_partial_json :: string
  delta_thinking :: string

record StreamEvent =
  ev_type :: StreamEventType
  ev_message :: "CreateMessageResponse option"
  ev_content_block :: "ContentBlock option"
  ev_delta :: "BlockDelta option"
  ev_stop_reason :: "StopReason option"
  ev_usage :: "TokenUsage option"
  ev_error :: "string option"
  ev_content_block_index :: int

text \<open>A default-constructed \<^verbatim>\<open>StreamEvent\<close> with its type set.\<close>

definition StreamEvent_of_type :: "StreamEventType \<Rightarrow> StreamEvent" where
  "StreamEvent_of_type t =
     \<lparr>ev_type = t, ev_message = None, ev_content_block = None, ev_delta = None,
      ev_stop_reason = None, ev_usage = None, ev_error = None, ev_content_block_index = 0\<rparr>"


section \<open>Deserialization (api/claude_types.cpp)\<close>

definition from_json_TokenUsage :: "json \<Rightarrow> TokenUsage option" where
  "from_json_TokenUsage j = do {
     i \<leftarrow> value_int j ''input_tokens'' 0;
     out \<leftarrow> value_int j ''output_tokens'' 0;
     cr \<leftarrow> value_int j ''cache_read_input_tokens'' 0;
     cc \<leftarrow> value_int j ''cache_creation_input_tokens'' 0;
     Some \<lparr>input_tokens = i, output_tokens = out, cache_read_tokens = cr,
           cache_creation_tokens = cc\<rparr>
   }"

definition from_json_ContentBlock :: "json \<Rightarrow> ContentBlock option" where
  "from_json_ContentBlock j = do {
     t \<leftarrow> value_string j ''type'' '''';
     if t = ''text'' then do {
       x \<leftarrow> value_string j ''text'' '''';
       Some (TextContent x)
     } else if t = ''tool_use'' then do {
       i \<leftarrow> value_string j ''id'' '''';
       n \<leftarrow> value_string j ''name'' '''';
       Some (ToolUseContent i n (if json_contains j ''input'' then json_at j ''input'' else JNull))
     } else if t = ''tool_result'' then do {
       i \<leftarrow> value_string j ''tool_use_id'' '''';
       c \<leftarrow> value_string j ''content'' '''';
       e \<leftarrow> value_bool j ''is_error'' False;
       Some (ToolResultContent i c e)
     } else if t = ''thinking'' then do {
       x \<leftarrow> value_string j ''thinking'' '''';
       Some (ThinkingContent x)
     } else Some (TextContent '''')
   }"

definition from_json_CreateMessageResponse :: "json \<Rightarrow> CreateMessageResponse option" where
  "from_json_CreateMessageResponse j = do {
     i \<leftarrow> value_string j ''id'' '''';
     m \<leftarrow> value_string j ''model'' '''';
     sr \<leftarrow> (if json_contains j ''stop_reason'' \<and> json_at j ''stop_reason'' \<noteq> JNull
            then map_option (\<lambda>s. Some (stop_reason_from_str s))
                   (get_string (json_at j ''stop_reason''))
            else Some None);
     c \<leftarrow> (if json_contains j ''content'' \<and> is_array (json_at j ''content'')
           then those (map from_json_ContentBlock (array_items (json_at j ''content'')))
           else Some []);
     u \<leftarrow> (if json_contains j ''usage'' then from_json_TokenUsage (json_at j ''usage'')
           else Some TokenUsage_default);
     Some \<lparr>resp_id = i, resp_model = m, resp_stop_reason = sr, resp_content = c,
           resp_usage = u\<rparr>
   }"

definition from_json_delta :: "int \<Rightarrow> json \<Rightarrow> BlockDelta option" where
  "from_json_delta idx d = do {
     t \<leftarrow> value_string d ''type'' '''';
     if t = ''text_delta'' then do {
       x \<leftarrow> value_string d ''text'' '''';
       Some \<lparr>delta_index = idx, delta_type = t, delta_text = x, delta_partial_json = '''',
             delta_thinking = ''''\<rparr>
     } else if t = ''input_json_delta'' then do {
       x \<leftarrow> value_string d ''partial_json'' '''';
       Some \<lparr>delta_index = idx, delta_type = t, delta_text = '''', delta_partial_json = x,
             delta_thinking = ''''\<rparr>
     } else if t = ''thinking_delta'' then do {
       x \<leftarrow> value_string d ''thinking'' '''';
       Some \<lparr>delta_index = idx, delta_type = t, delta_text = '''', delta_partial_json = '''',
             delta_thinking = x\<rparr>
     } else
       Some \<lparr>delta_index = idx, delta_type = t, delta_text = '''', delta_partial_json = '''',
             delta_thinking = ''''\<rparr>
   }"

definition from_json_StreamEvent :: "json \<Rightarrow> StreamEvent option" where
  "from_json_StreamEvent j = do {
     type_str \<leftarrow> value_string j ''type'' '''';
     let t = stream_event_type_from_str type_str;
     let e = StreamEvent_of_type t;
     case t of
       MessageStart \<Rightarrow>
         if json_contains j ''message'' then do {
           msg \<leftarrow> from_json_CreateMessageResponse (json_at j ''message'');
           Some (e\<lparr>ev_message := Some msg\<rparr>)
         } else Some e
     | ContentBlockStart \<Rightarrow> do {
         idx \<leftarrow> value_int j ''index'' 0;
         if json_contains j ''content_block'' then do {
           b \<leftarrow> from_json_ContentBlock (json_at j ''content_block'');
           Some (e\<lparr>ev_content_block_index := idx, ev_content_block := Some b\<rparr>)
         } else Some (e\<lparr>ev_content_block_index := idx\<rparr>)
       }
     | ContentBlockDelta \<Rightarrow> do {
         idx \<leftarrow> value_int j ''index'' 0;
         if json_contains j ''delta'' then do {
           d \<leftarrow> from_json_delta idx (json_at j ''delta'');
           Some (e\<lparr>ev_content_block_index := idx, ev_delta := Some d\<rparr>)
         } else Some (e\<lparr>ev_content_block_index := idx\<rparr>)
       }
     | ContentBlockStop \<Rightarrow> do {
         idx \<leftarrow> value_int j ''index'' 0;
         Some (e\<lparr>ev_content_block_index := idx\<rparr>)
       }
     | MessageDelta \<Rightarrow> do {
         sr \<leftarrow> (if json_contains j ''delta'' \<and> json_contains (json_at j ''delta'') ''stop_reason''
                then map_option (\<lambda>s. Some (stop_reason_from_str s))
                       (get_string (json_at (json_at j ''delta'') ''stop_reason''))
                else Some None);
         u \<leftarrow> (if json_contains j ''usage''
               then map_option Some (from_json_TokenUsage (json_at j ''usage''))
               else Some None);
         Some (e\<lparr>ev_stop_reason := sr, ev_usage := u\<rparr>)
       }
     | Error \<Rightarrow>
         if json_contains j ''error'' then do {
           m \<leftarrow> value_string (json_at j ''error'') ''message'' ''Unknown error'';
           Some (e\<lparr>ev_error := Some m\<rparr>)
         } else Some e
     | _ \<Rightarrow> Some e
   }"


section \<open>Streaming parser (api/streaming_parser.cpp)\<close>

text \<open>
  \<^verbatim>\<open>StreamingParser::Impl\<close>. The callback is a function object of the caller, set
  wherever the program builds a parser; the model keeps the list of events it has been
  called with, oldest first.
\<close>

record Impl =
  callback :: "StreamEvent list"
  buffer :: string
  response :: "CreateMessageResponse option"
  content_blocks :: "ContentBlock list"
  partial_jsons :: "string list"
  complete :: bool
  has_error :: bool
  error_message :: string

text \<open>The constructor, given the calls its callback has already received.\<close>

definition StreamingParser_new :: "StreamEvent list \<Rightarrow> Impl" where
  "StreamingParser_new cb =
     \<lparr>callback = cb, buffer = [], response = None, content_blocks = [], partial_jsons = [],
      complete = False, has_error = False, error_message = []\<rparr>"

text \<open>\<^verbatim>\<open>static_cast<size_t>\<close> of an \<^verbatim>\<open>int\<close> on a 64-bit target: a negative index
  becomes a value of at least \<open>2 ^ 63\<close>.\<close>

definition size_t_of :: "int \<Rightarrow> nat" where
  "size_t_of i = nat (i mod 2 ^ 64)"

fun is_Text :: "ContentBlock \<Rightarrow> bool" where
  "is_Text (TextContent t) = True"
| "is_Text b = False"

fun is_Thinking :: "ContentBlock \<Rightarrow> bool" where
  "is_Thinking (ThinkingContent t) = True"
| "is_Thinking b = False"

text \<open>The three branches of a \<^verbatim>\<open>ContentBlockDelta\<close> event, for an index in range.
  \<^verbatim>\<open>std::get_if\<close> yields null for a block of another kind, and nothing is appended.\<close>

fun append_text :: "ContentBlock \<Rightarrow> string \<Rightarrow> ContentBlock" where
  "append_text (TextContent t) s = TextContent (t @ s)"
| "append_text b s = b"

fun append_thinking :: "ContentBlock \<Rightarrow> string \<Rightarrow> ContentBlock" where
  "append_thinking (ThinkingContent t) s = ThinkingContent (t @ s)"
| "append_thinking b s = b"

text \<open>\<^verbatim>\<open>ContentBlockStop\<close> on a tool-use block: the accumulated fragments are parsed;
  when the parse throws, the block keeps its input.\<close>

fun finalize_tool :: "json_parse \<Rightarrow> ContentBlock \<Rightarrow> string \<Rightarrow> ContentBlock" where
  "finalize_tool parse (ToolUseContent i n inp) pj =
     (if pj \<noteq> [] then
        (case parse pj of None \<Rightarrow> ToolUseContent i n inp | Some v \<Rightarrow> ToolUseContent i n v)
      else ToolUseContent i n inp)"
| "finalize_tool parse b pj = b"

text \<open>
  \<^verbatim>\<open>Impl::process_event\<close>. The allocation loop of \<^verbatim>\<open>ContentBlockStart\<close> pushes one
  empty text block and one empty fragment string until the block array is longer than the
  index. Memory is taken to be unbounded, so the loop always completes; a negative index,
  read as \<^verbatim>\<open>size_t\<close>, asks for more than \<open>2 ^ 63\<close> slots, an allocation that fails on a
  real machine and that the model does not represent. The two arrays grow and are cleared
  together, so the fragment array is as long as the block array whenever it is indexed.
\<close>

definition process_event :: "json_parse \<Rightarrow> Impl \<Rightarrow> StreamEvent \<Rightarrow> Impl" where
  "process_event parse st event =
     (case ev_type event of
        MessageStart \<Rightarrow>
          (case ev_message event of
             None \<Rightarrow> st
           | Some m \<Rightarrow> st\<lparr>response := Some (m\<lparr>resp_content := []\<rparr>)\<rparr>)
      | ContentBlockStart \<Rightarrow>
          (let idx = size_t_of (ev_content_block_index event);
               n = Suc idx - length (content_blocks st);
               st1 = st\<lparr>content_blocks := content_blocks st @ replicate n (TextContent ''''),
                        partial_jsons := partial_jsons st @ replicate n ''''\<rparr>
           in case ev_content_block event of
                None \<Rightarrow> st1
              | Some b \<Rightarrow> st1\<lparr>content_blocks := (content_blocks st1)[idx := b]\<rparr>)
      | ContentBlockDelta \<Rightarrow>
          (case ev_delta event of
             None \<Rightarrow> st
           | Some d \<Rightarrow>
               (let idx = size_t_of (ev_content_block_index event) in
                if idx < length (content_blocks st) then
                  (if delta_type d = ''text_delta'' then
                     st\<lparr>content_blocks :=
                          (content_blocks st)[idx := append_text (content_blocks st ! idx) (delta_text d)]\<rparr>
                   else if delta_type d = ''input_json_delta'' then
                     st\<lparr>partial_jsons :=
                          (partial_jsons st)[idx := partial_jsons st ! idx @ delta_partial_json d]\<rparr>
                   else if delta_type d = ''thinking_delta'' then
                     st\<lparr>content_blocks :=
                          (content_blocks st)[idx := append_thinking (content_blocks st ! idx) (delta_thinking d)]\<rparr>
                   else st)
                else st))
      | ContentBlockStop \<Rightarrow>
          (let idx = size_t_of (ev_content_block_index event) in
           if idx < length (content_blocks st) \<and> idx < length (partial_jsons st) then
             st\<lparr>content_blocks :=
                  (content_blocks st)[idx := finalize_tool parse (content_blocks st ! idx) (partial_jsons st ! idx)]\<rparr>
           else st)
      | MessageDelta \<Rightarrow>
          (let st1 = (case (ev_stop_reason event, response st) of
                        (Some sr, Some r) \<Rightarrow> st\<lparr>response := Some (r\<lparr>resp_stop_reason := Some sr\<rparr>)\<rparr>
                      | _ \<Rightarrow> st)
           in case (ev_usage event, response st1) of
                (Some u, Some r) \<Rightarrow> st1\<lparr>response := Some (r\<lparr>resp_usage := u\<rparr>)\<rparr>
              | _ \<Rightarrow> st1)
      | MessageStop \<Rightarrow>
          (let st1 = (case response st of
                        None \<Rightarrow> st
                      | Some r \<Rightarrow> st\<lparr>response := Some (r\<lparr>resp_content := content_blocks st\<rparr>)\<rparr>)
           in st1\<lparr>complete := True\<rparr>)
      | Error \<Rightarrow>
          st\<lparr>has_error := True,
             error_message := (case ev_error event of None \<Rightarrow> ''Unknown streaming error'' | Some m \<Rightarrow> m)\<rparr>
      | Ping \<Rightarrow> st)"


definition starts_with :: "string \<Rightarrow> string \<Rightarrow> bool" where
  "starts_with p s = (take (length p) s = p)"

text \<open>
  \<^verbatim>\<open>Impl::process_line\<close>. \<^verbatim>\<open>line.find(p) == 0\<close> holds when the line starts with \<open>p\<close>.
  An exception of the JSON parser or of the deserialization leaves the parser as it was;
  otherwise the event is applied and then handed to the callback.
\<close>

definition process_line :: "json_parse \<Rightarrow> Impl \<Rightarrow> string \<Rightarrow> Impl" where
  "process_line parse st line =
     (if starts_with ''event:'' line then st
      else if starts_with ''data:'' line then
        (let data = dropWhile (\<lambda>c. c = CHR '' '' \<or> c = CHR 0x09) (drop 5 line) in
         if data = [] \<or> data = ''[DONE]'' then st
         else
           (case parse data of
              None \<Rightarrow> st
            | Some j \<Rightarrow>
                (case from_json_StreamEvent j of
                   None \<Rightarrow> st
                 | Some event \<Rightarrow>
                     (let st1 = process_event parse st event
                      in st1\<lparr>callback := callback st1 @ [event]\<rparr>))))
      else st)"

text \<open>\<^verbatim>\<open>std::string::find(char)\<close>: the first position of the character, \<open>None\<close> for
  \<^verbatim>\<open>npos\<close>.\<close>

fun find_char :: "char \<Rightarrow> string \<Rightarrow> nat option" where
  "find_char c [] = None"
| "find_char c (x # xs) = (if x = c then Some 0 else map_option Suc (find_char c xs))"

text \<open>The body of the loop of \<^verbatim>\<open>feed\<close> for a line feed at position \<open>pos\<close>: the line is
  cut off the buffer, loses one trailing carriage return and is processed unless empty.\<close>

definition feed_step :: "json_parse \<Rightarrow> Impl \<Rightarrow> nat \<Rightarrow> Impl" where
  "feed_step parse st pos =
     (let line = take pos (buffer st);
          st1 = st\<lparr>buffer := drop (pos + 1) (buffer st)\<rparr>;
          line1 = (if line \<noteq> [] \<and> last line = CHR 0x0D then butlast line else line)
      in if line1 \<noteq> [] then process_line parse st1 line1 else st1)"

lemma process_event_buffer: "buffer (process_event parse st e) = buffer st"
  by (simp add: process_event_def Let_def split: StreamEventType.splits option.splits)

lemma process_line_buffer: "buffer (process_line parse st l) = buffer st"
  by (simp add: process_line_def Let_def process_event_buffer split: option.splits)

lemma find_char_less: "find_char c s = Some p \<Longrightarrow> p < length s"
  by (induction s arbitrary: p) (auto split: if_splits)

lemma feed_step_buffer:
  "buffer (feed_step parse st pos) = drop (pos + 1) (buffer st)"
  by (simp add: feed_step_def Let_def process_line_buffer)

function feed_loop :: "json_parse \<Rightarrow> Impl \<Rightarrow> Impl" where
  "feed_loop parse st =
     (case find_char (CHR 0x0A) (buffer st) of
        None \<Rightarrow> st
      | Some pos \<Rightarrow> feed_loop parse (feed_step parse st pos))"
  by pat_completeness auto
termination
proof (relation "measure (\<lambda>(parse, st). length (buffer st))")
  show "wf (measure (\<lambda>(parse, st). length (buffer st)))"
    by simp
next
  fix parse :: json_parse and st :: Impl and pos :: nat
  assume "find_char (CHR 0x0A) (buffer st) = Some pos"
  then have "pos < length (buffer st)"
    by (rule find_char_less)
  then show "((parse, feed_step parse st pos), (parse, st))
               \<in> measure (\<lambda>(parse, st). length (buffer st))"
    by (simp add: feed_step_buffer)
qed

declare feed_loop.simps [simp del]

text \<open>\<^verbatim>\<open>StreamingParser::feed\<close>, \<^verbatim>\<open>finish\<close>, \<^verbatim>\<open>reset\<close> and the accessors.\<close>

definition feed :: "json_parse \<Rightarrow> Impl \<Rightarrow> string \<Rightarrow> Impl" where
  "feed parse st data = feed_loop parse (st\<lparr>buffer := buffer st @ data\<rparr>)"

definition finish :: "json_parse \<Rightarrow> Impl \<Rightarrow> Impl" where
  "finish parse st =
     (if buffer st \<noteq> [] then (process_line parse st (buffer st))\<lparr>buffer := []\<rparr> else st)"

definition reset :: "Impl \<Rightarrow> Impl" where
  "reset st =
     st\<lparr>buffer := [], response := None, content_blocks := [], partial_jsons := [],
        complete := False, has_error := False, error_message := []\<rparr>"

definition get_response :: "Impl \<Rightarrow> CreateMessageResponse option" where
  "get_response st = response st"

definition is_complete :: "Impl \<Rightarrow> bool" where
  "is_complete st = complete st"

definition parser_has_error :: "Impl \<Rightarrow> bool" where
  "parser_has_error st = has_error st"

definition get_error :: "Impl \<Rightarrow> string" where
  "get_error st = error_message st"



section \<open>Script blocks (api/streaming_parser.cpp, core/types.cpp)\<close>

record ScriptBlock =
  code :: string
  preceding_text :: string

text \<open>\<^verbatim>\<open>trim\<close>: the text without its leading and trailing characters among
  space, tab, line feed, carriage return, form feed and vertical tab.\<close>

definition is_space :: "char \<Rightarrow> bool" where
  "is_space c =
     (c = CHR '' '' \<or> c = CHR 0x09 \<or> c = CHR 0x0A \<or> c = CHR 0x0D \<or> c = CHR 0x0C \<or> c = CHR 0x0B)"

definition trim :: "string \<Rightarrow> string" where
  "trim s = rev (dropWhile is_space (rev (dropWhile is_space s)))"

text \<open>The first position at which a text occurs in another, \<open>None\<close> when it does not.\<close>

fun find_sub :: "string \<Rightarrow> string \<Rightarrow> nat option" where
  "find_sub p [] = (if p = [] then Some 0 else None)"
| "find_sub p (c # cs) =
     (if starts_with p (c # cs) then Some 0 else map_option Suc (find_sub p cs))"

definition open_tag :: string where
  "open_tag = ''<idascript>''"

definition close_tag :: string where
  "close_tag = ''</idascript>''"

text \<open>
  \<^verbatim>\<open>std::regex_search\<close> with the expression \<^verbatim>\<open><idascript>([\s\S]*?)</idascript>\<close>:
  the leftmost match starts at the first opening tag; the lazy group takes the characters
  up to the first closing tag after it. There is no match when no opening tag occurs or
  no closing tag follows the first one. The result is the position of the match, the text
  of group 1 and the length of the match.
\<close>

definition regex_search_script :: "string \<Rightarrow> (nat \<times> string \<times> nat) option" where
  "regex_search_script s =
     (case find_sub open_tag s of
        None \<Rightarrow> None
      | Some i \<Rightarrow>
          (case find_sub close_tag (drop (i + length open_tag) s) of
             None \<Rightarrow> None
           | Some j \<Rightarrow>
               Some (i, take j (drop (i + length open_tag) s),
                     length open_tag + j + length close_tag)))"

lemma find_sub_bound: "find_sub p s = Some i \<Longrightarrow> i + length p \<le> length s"
proof (induction s arbitrary: i)
  case Nil
  then show ?case by (simp split: if_splits)
next
  case (Cons c cs)
  show ?case
  proof (cases "starts_with p (c # cs)")
    case True
    then have "length (take (length p) (c # cs)) = length p"
      by (simp only: starts_with_def)
    then have "length p \<le> length (c # cs)"
      by simp
    with True Cons.prems show ?thesis by simp
  next
    case False
    with Cons.prems obtain k where "find_sub p cs = Some k" and "i = Suc k"
      by auto
    with Cons.IH [of k] show ?thesis by simp
  qed
qed

lemma regex_search_script_bound:
  assumes "regex_search_script s = Some (pos, body, len)"
  shows "pos + len \<le> length s \<and> 0 < len"
proof -
  from assms obtain j where i: "find_sub open_tag s = Some pos"
    and j: "find_sub close_tag (drop (pos + length open_tag) s) = Some j"
    and len: "len = length open_tag + j + length close_tag"
    by (auto simp: regex_search_script_def split: option.splits)
  from find_sub_bound [OF i] find_sub_bound [OF j] len show ?thesis
    by (simp add: open_tag_def close_tag_def)
qed

text \<open>The loop of \<^verbatim>\<open>extract_idascript_blocks\<close>, with its variables \<^verbatim>\<open>last_end\<close> and
  \<^verbatim>\<open>blocks\<close>; the search starts at \<^verbatim>\<open>text.cbegin() + last_end\<close>.\<close>

function extract_loop :: "string \<Rightarrow> nat \<Rightarrow> ScriptBlock list \<Rightarrow> nat \<times> ScriptBlock list" where
  "extract_loop text last_end blocks =
     (case regex_search_script (drop last_end text) of
        None \<Rightarrow> (last_end, blocks)
      | Some (pos, body, len) \<Rightarrow>
          (let match_start = pos + last_end;
               block = \<lparr>code = trim body,
                        preceding_text = take (match_start - last_end) (drop last_end text)\<rparr>
           in extract_loop text (match_start + len) (blocks @ [block])))"
  by pat_completeness auto
termination
proof (relation "measure (\<lambda>(text, last_end, blocks). length text - last_end)")
  show "wf (measure (\<lambda>(text, last_end, blocks). length text - last_end))"
    by simp
next
  fix s :: string and last_end :: nat and blocks :: "ScriptBlock list"
    and m :: "nat \<times> string \<times> nat" and pos :: nat and r :: "string \<times> nat"
    and body :: string and len ms :: nat and b :: ScriptBlock
  assume "regex_search_script (drop last_end s) = Some m" and "(pos, r) = m"
    and "(body, len) = r" and "ms = pos + last_end"
  then have "regex_search_script (drop last_end s) = Some (pos, body, len)"
    by simp
  from regex_search_script_bound [OF this]
  have "pos + len \<le> length s - last_end" and "0 < len"
    by simp_all
  with \<open>ms = pos + last_end\<close>
  show "((s, ms + len, blocks @ [b]), (s, last_end, blocks))
          \<in> measure (\<lambda>(text, last_end, blocks). length text - last_end)"
    by simp
qed

declare extract_loop.simps [simp del]

definition extract_idascript_blocks :: "string \<Rightarrow> ScriptBlock list" where
  "extract_idascript_blocks text =
     (case extract_loop text 0 [] of
        (last_end, blocks) \<Rightarrow>
          if blocks \<noteq> [] then
            (if last_end < length text
             then blocks @ [\<lparr>code = [], preceding_text = drop last_end text\<rparr>]
             else blocks)
          else blocks)"

text \<open>\<^verbatim>\<open>has_idascript_blocks\<close>: a search for the opening tag alone.\<close>

definition has_idascript_blocks :: "string \<Rightarrow> bool" where
  "has_idascript_blocks text = (case find_sub open_tag text of None \<Rightarrow> False | Some i \<Rightarrow> True)"

text \<open>\<^verbatim>\<open>strip_idascript_blocks\<close>: \<^verbatim>\<open>std::regex_replace\<close> with an empty replacement
  copies the text before each match, continues after the match and copies what is left
  after the last one.\<close>

function strip_idascript_blocks :: "string \<Rightarrow> string" where
  "strip_idascript_blocks text =
     (case regex_search_script text of
        None \<Rightarrow> text
      | Some (pos, body, len) \<Rightarrow> take pos text @ strip_idascript_blocks (drop (pos + len) text))"
  by pat_completeness auto
termination
proof (relation "measure length")
  show "wf (measure length)"
    by simp
next
  fix s :: string and m :: "nat \<times> string \<times> nat" and pos :: nat
    and r :: "string \<times> nat" and body :: string and len :: nat
  assume "regex_search_script s = Some m" and "(pos, r) = m" and "(body, len) = r"
  then have "regex_search_script s = Some (pos, body, len)"
    by simp
  from regex_search_script_bound [OF this]
  show "(drop (pos + len) s, s) \<in> measure length"
    by auto
qed

declare strip_idascript_blocks.simps [simp del]



section \<open>Serialization (api/claude_types.cpp)\<close>

record ToolDefinition =
  tool_def_name :: string
  tool_def_description :: string
  input_schema :: json

text \<open>\<^verbatim>\<open>CreateMessageRequest::ThinkingConfig\<close> and \<^verbatim>\<open>CreateMessageRequest\<close>\<close>

record ThinkingConfig =
  enabled :: bool
  budget_tokens :: int

record CreateMessageRequest =
  model :: string
  messages :: "ClaudeMessage list"
  system :: string
  tools :: "ToolDefinition list"
  max_tokens :: int
  temperature :: "real option"
  stream :: bool
  thinking :: "ThinkingConfig option"

definition message_role_str :: "MessageRole \<Rightarrow> string" where
  "message_role_str r = (if r = User then ''user'' else ''assistant'')"

text \<open>\<^verbatim>\<open>j[key] = value\<close> on an object: the value of an existing key is replaced, a new
  key is added.\<close>

fun json_set :: "json \<Rightarrow> string \<Rightarrow> json \<Rightarrow> json" where
  "json_set (JObject kvs) k v = JObject (AList.update k v kvs)"
| "json_set j k v = JObject [(k, v)]"

fun to_json_ContentBlock :: "ContentBlock \<Rightarrow> json" where
  "to_json_ContentBlock (TextContent t) =
     JObject [(''type'', JString ''text''), (''text'', JString t)]"
| "to_json_ContentBlock (ToolUseContent i n inp) =
     JObject [(''type'', JString ''tool_use''), (''id'', JString i), (''name'', JString n),
              (''input'', inp)]"
| "to_json_ContentBlock (ToolResultContent i c e) =
     (let j = JObject [(''type'', JString ''tool_result''), (''tool_use_id'', JString i),
                       (''content'', JString c)]
      in if e then json_set j ''is_error'' (JBool True) else j)"
| "to_json_ContentBlock (ThinkingContent t) =
     JObject [(''type'', JString ''thinking''), (''thinking'', JString t)]"

definition to_json_ClaudeMessage :: "ClaudeMessage \<Rightarrow> json" where
  "to_json_ClaudeMessage m =
     JObject [(''role'', JString (message_role_str (role m))),
              (''content'', JArray (map to_json_ContentBlock (content m)))]"

definition to_json_ToolDefinition :: "ToolDefinition \<Rightarrow> json" where
  "to_json_ToolDefinition t =
     JObject [(''name'', JString (tool_def_name t)),
              (''description'', JString (tool_def_description t)),
              (''input_schema'', input_schema t)]"

definition to_json_CreateMessageRequest :: "CreateMessageRequest \<Rightarrow> json" where
  "to_json_CreateMessageRequest r =
     (let j0 = JObject [(''model'', JString (model r)),
                        (''messages'', JArray (map to_json_ClaudeMessage (messages r))),
                        (''max_tokens'', JInt (max_tokens r))];
          j1 = (if system r \<noteq> [] then json_set j0 ''system'' (JString (system r)) else j0);
          j2 = (if tools r \<noteq> []
                then json_set j1 ''tools'' (JArray (map to_json_ToolDefinition (tools r)))
                else j1);
          j3 = (case temperature r of
                  None \<Rightarrow> j2
                | Some t \<Rightarrow> json_set j2 ''temperature'' (JFloat t));
          j4 = (if stream r then json_set j3 ''stream'' (JBool True) else j3)
      in case thinking r of
           None \<Rightarrow> j4
         | Some c \<Rightarrow>
             if enabled c
             then json_set j4 ''thinking''
                    (JObject [(''type'', JString ''enabled''),
                              (''budget_tokens'', JInt (budget_tokens c))])
             else j4)"


section \<open>Network client (api/claude_client.cpp)\<close>

text \<open>
  \<^verbatim>\<open>ClaudeClient::Impl\<close>: the API key of the credentials, the model, the running usage
  and the cancellation flag. The HTTP layer is outside the repository's logic: the
  functions below take it as a parameter that gives, for the ordinal of the request and
  its body, what the transfer delivers. \<open>http_requests\<close> counts the requests made.
\<close>

record ClaudeClient =
  api_key :: string
  client_model :: string
  client_total_usage :: TokenUsage
  client_cancelled :: bool
  http_requests :: nat

record HttpResponse =
  status_code :: int
  body :: string
  http_success :: bool


definition is_configured :: "ClaudeClient \<Rightarrow> bool" where
  "is_configured c = (api_key c \<noteq> [])"


text \<open>
  \<^verbatim>\<open>ClaudeClient::send_message_streaming\<close>. The transfer hands the chunks to the parser
  one by one; \<open>stream_request\<close> gives the chunks that were fed, that is, those that arrived
  before the transfer ended or was aborted.
\<close>

definition send_message_streaming ::
  "json_parse \<Rightarrow> (nat \<Rightarrow> json \<Rightarrow> string list) \<Rightarrow> ClaudeClient \<Rightarrow> CreateMessageRequest
     \<Rightarrow> ClaudeClient \<times> CreateMessageResponse option" where
  "send_message_streaming parse stream_request c request =
     (if \<not> is_configured c then (c, None)
      else
        (let c1 = c\<lparr>client_cancelled := False\<rparr>;
             streaming_request = request\<lparr>stream := True\<rparr>;
             chunks = stream_request (http_requests c1)
                        (to_json_CreateMessageRequest streaming_request);
             c2 = c1\<lparr>http_requests := http_requests c1 + 1\<rparr>;
             parser = finish parse (foldl (feed parse) (StreamingParser_new []) chunks)
         in if parser_has_error parser then (c2, None)
            else
              (case get_response parser of
                 None \<Rightarrow> (c2, None)
               | Some r \<Rightarrow>
                   (c2\<lparr>client_total_usage :=
                         usage_add (client_total_usage c2) (resp_usage r)\<rparr>,
                    Some r))))"

text \<open>
  \<^verbatim>\<open>ClaudeClient::estimate_cost\<close>. The source computes in \<^verbatim>\<open>double\<close>; the rounding of
  each conversion and operation is the parameter \<open>rnd\<close>. The prices are 3 and 15 per
  million tokens, and a tenth of the input price for cache reads.
\<close>

definition estimate_cost :: "(real \<Rightarrow> real) \<Rightarrow> TokenUsage \<Rightarrow> real" where
  "estimate_cost rnd u =
     (let input_cost = rnd (rnd (rnd (real_of_int (input_tokens u)) / 1000000) * 3);
          output_cost = rnd (rnd (rnd (real_of_int (output_tokens u)) / 1000000) * 15);
          cache_cost = rnd (rnd (rnd (real_of_int (cache_read_tokens u)) / 1000000)
                         * rnd (3 * rnd (1 / 10)))
      in rnd (rnd (input_cost + output_cost) + cache_cost))"

text \<open>\<^verbatim>\<open>ClaudeClient::get_idascript_tool\<close> and \<^verbatim>\<open>get_default_tools\<close>\<close>

definition get_idascript_tool :: ToolDefinition where
  "get_idascript_tool =
     \<lparr>tool_def_name = ''idascript'',
      tool_def_description =
        ''Execute Python code in IDA Pro's scripting environment.'' @ [CHR 0x0A, CHR 0x0A]
        @ ''The code has access to all IDA Pro APIs and the `db` object from ida-domain for database operations.''
        @ [CHR 0x0A, CHR 0x0A]
        @ ''Use this tool to:'' @ [CHR 0x0A]
        @ ''- Analyze binary code, functions, and data'' @ [CHR 0x0A]
        @ ''- Navigate the disassembly'' @ [CHR 0x0A]
        @ ''- Query cross-references'' @ [CHR 0x0A]
        @ ''- Extract strings and constants'' @ [CHR 0x0A]
        @ ''- Decompile functions (if Hex-Rays is available)'' @ [CHR 0x0A, CHR 0x0A]
        @ ''The output will be captured and returned. Print results you want to see.'',
      input_schema =
        JObject [(''type'', JString ''object''),
                 (''properties'',
                    JObject [(''code'',
                       JObject [(''type'', JString ''string''),
                                (''description'', JString ''Python code to execute in IDA'')])]),
                 (''required'', JArray [JString ''code''])]\<rparr>"

definition get_default_tools :: "ToolDefinition list" where
  "get_default_tools = [get_idascript_tool]"



section \<open>Agent loop (core/chat_core.cpp)\<close>

datatype ChatState = Disconnected | Connecting | Idle | Processing | Cancelled

record ScriptResult =
  script_success :: bool
  script_output :: string
  script_error :: string

record ChatCoreOptions =
  max_turns :: int
  verbose :: bool
  options_model :: string
  enable_thinking :: bool
  thinking_budget :: int

record ProcessResult =
  res_success :: bool
  res_response :: string
  res_turns_used :: int
  res_cost :: "real option"
  res_error :: string
  res_cancelled :: bool

definition ProcessResult_default :: ProcessResult where
  "ProcessResult_default =
     \<lparr>res_success = False, res_response = [], res_turns_used = 0, res_cost = None,
      res_error = [], res_cancelled = False\<rparr>"

record CLIResponse =
  response_text :: string
  error_text :: string
  got_response :: bool
  cli_cost :: real
  num_turns :: int
  cli_session_id :: string

text \<open>
  \<^verbatim>\<open>ChatCore::Impl\<close>. The callback interface and the history sink only receive
  notifications and are left out. Two fields are added for the statements below:
  \<open>cli_calls\<close> counts the runs of the command-line agent and \<open>executed\<close> lists the
  scripts handed to the script executor, oldest first.
\<close>

record ChatCore =
  options :: ChatCoreOptions
  client :: "ClaudeClient option"
  conversation :: "ClaudeMessage list"
  system_prompt :: string
  cancelled :: bool
  state :: ChatState
  total_usage :: TokenUsage
  use_cli_mode :: bool
  cli_path :: string
  cli_calls :: nat
  executed :: "string list"

text \<open>
  What surrounds the controller during one call of \<^verbatim>\<open>process_message\<close>: the JSON
  parser, the HTTP transfer, the run of the command-line agent with the decoding of its
  output (\<^verbatim>\<open>run_cli_call\<close>, given the ordinal of the run, the message, the session
  identifier and the continuation flag), the script executor (absent, or a function of the
  ordinal of the execution and the code), the rounding of \<^verbatim>\<open>double\<close>, and whether another
  thread calls \<^verbatim>\<open>request_cancel\<close> while the transport call of a given ordinal runs.
\<close>

record Env =
  json_parser :: json_parse
  stream_request :: "nat \<Rightarrow> json \<Rightarrow> string list"
  run_cli_call :: "nat \<Rightarrow> string \<Rightarrow> string \<Rightarrow> bool \<Rightarrow> CLIResponse"
  script_executor :: "(nat \<Rightarrow> string \<Rightarrow> ScriptResult) option"
  round_double :: "real \<Rightarrow> real"
  cancel_requested :: "nat \<Rightarrow> bool"

text \<open>How one pass through the body of a loop ends: \<^verbatim>\<open>continue\<close>, \<^verbatim>\<open>break\<close> or
  \<^verbatim>\<open>return\<close>.\<close>

datatype LoopExit = ContinueLoop | BreakLoop | ReturnResult ProcessResult

definition ClaudeMessage_user :: "string \<Rightarrow> ClaudeMessage" where
  "ClaudeMessage_user t = \<lparr>role = User, content = [TextContent t]\<rparr>"

text \<open>\<^verbatim>\<open>CreateMessageResponse::get_text\<close>: the text blocks, joined by line feeds.\<close>

definition get_text :: "ContentBlock list \<Rightarrow> string" where
  "get_text blocks =
     foldl (\<lambda>result b.
              case b of
                TextContent t \<Rightarrow> (if result \<noteq> [] then result @ [CHR 0x0A] else result) @ t
              | _ \<Rightarrow> result)
       [] blocks"

definition is_connected :: "ChatCore \<Rightarrow> bool" where
  "is_connected st =
     (if use_cli_mode st then state st \<noteq> Disconnected \<and> cli_path st \<noteq> []
      else state st \<noteq> Disconnected \<and> client st \<noteq> None)"

text \<open>\<^verbatim>\<open>ChatCore::request_cancel\<close>, with \<^verbatim>\<open>ClaudeClient::cancel\<close>.\<close>

definition request_cancel :: "ChatCore \<Rightarrow> ChatCore" where
  "request_cancel st =
     st\<lparr>cancelled := True,
        client := map_option (\<lambda>c. c\<lparr>client_cancelled := True\<rparr>) (client st),
        state := Cancelled\<rparr>"

text \<open>\<^verbatim>\<open>Impl::execute_script\<close> and \<^verbatim>\<open>Impl::process_scripts\<close>\<close>

definition execute_script :: "Env \<Rightarrow> ChatCore \<Rightarrow> string \<Rightarrow> ChatCore \<times> string" where
  "execute_script env st c =
     (case script_executor env of
        None \<Rightarrow> (st, ''Error: No script executor available'')
      | Some exec \<Rightarrow>
          (let result = exec (length (executed st)) c;
               st1 = st\<lparr>executed := executed st @ [c]\<rparr>
           in if script_success result then (st1, script_output result)
              else (st1, ''Error: '' @ script_error result)))"

fun run_blocks ::
  "Env \<Rightarrow> ChatCore \<Rightarrow> ScriptBlock list \<Rightarrow> string list \<Rightarrow> string list
     \<Rightarrow> ChatCore \<times> string list \<times> string list" where
  "run_blocks env st [] scripts outputs = (st, scripts, outputs)"
| "run_blocks env st (b # bs) scripts outputs =
     (if code b \<noteq> [] then
        (case execute_script env st (code b) of
           (st1, out) \<Rightarrow> run_blocks env st1 bs (scripts @ [code b]) (outputs @ [out]))
      else run_blocks env st bs scripts outputs)"

definition process_scripts ::
  "Env \<Rightarrow> ChatCore \<Rightarrow> string \<Rightarrow> ChatCore \<times> string list \<times> string list" where
  "process_scripts env st t = run_blocks env st (extract_idascript_blocks t) [] []"

text \<open>The transport call of one turn in network mode. The loop is entered only with a
  client (\<open>is_connected\<close>) and never loses it; without one there is no response.\<close>

definition client_call ::
  "Env \<Rightarrow> ChatCore \<Rightarrow> CreateMessageRequest \<Rightarrow> ChatCore \<times> CreateMessageResponse option" where
  "client_call env st request =
     (case client st of
        None \<Rightarrow> (st, None)
      | Some c \<Rightarrow>
          (case send_message_streaming (json_parser env) (stream_request env) c request of
             (c1, resp) \<Rightarrow>
               (let st1 = st\<lparr>client := Some c1\<rparr>
                in (if cancel_requested env (http_requests c) then request_cancel st1 else st1,
                    resp))))"

definition combine_outputs :: "string list \<Rightarrow> string" where
  "combine_outputs outputs =
     foldl (\<lambda>combined (i, out).
              (if 0 < i then combined @ [CHR 0x0A] @ ''---'' @ [CHR 0x0A] else combined) @ out)
       [] (enumerate 0 outputs)"

text \<open>The request of one turn.\<close>

definition build_request :: "ChatCore \<Rightarrow> CreateMessageRequest" where
  "build_request st =
     \<lparr>model = options_model (options st), messages = conversation st,
      system = system_prompt st, tools = get_default_tools, max_tokens = 8192,
      temperature = None, stream = True,
      thinking = (if enable_thinking (options st)
                  then Some \<lparr>enabled = True, budget_tokens = thinking_budget (options st)\<rparr>
                  else None)\<rparr>"

text \<open>The assistant message is added to the conversation and the usage to the total.\<close>

definition record_response :: "ChatCore \<Rightarrow> CreateMessageResponse \<Rightarrow> ChatCore" where
  "record_response st r =
     st\<lparr>conversation := conversation st @ [\<lparr>role = Assistant, content = resp_content r\<rparr>],
        total_usage := usage_add (total_usage st) (resp_usage r)\<rparr>"

text \<open>The output of the scripts is added to the conversation as a user message.\<close>

definition record_outputs :: "ChatCore \<Rightarrow> string list \<Rightarrow> ChatCore" where
  "record_outputs st outputs =
     st\<lparr>conversation :=
          conversation st
          @ [ClaudeMessage_user (''Script output:'' @ [CHR 0x0A] @ combine_outputs outputs)]\<rparr>"

text \<open>The body of the loop of \<^verbatim>\<open>ChatCore::process_message\<close>, after \<^verbatim>\<open>turn++\<close>.\<close>

definition turn_body :: "Env \<Rightarrow> ChatCore \<Rightarrow> string \<Rightarrow> ChatCore \<times> string \<times> LoopExit" where
  "turn_body env st full_response =
     (case client_call env st (build_request st) of
        (st1, None) \<Rightarrow>
          (st1\<lparr>state := Idle\<rparr>, full_response,
           ReturnResult
             (if cancelled st1 then ProcessResult_default\<lparr>res_cancelled := True\<rparr>
              else ProcessResult_default\<lparr>res_error := ''Failed to get response from Claude''\<rparr>))
      | (st1, Some r) \<Rightarrow>
          (let response_text = get_text (resp_content r);
               st2 = record_response st1 r;
               full1 = full_response @ response_text
           in if has_idascript_blocks response_text then
                (case process_scripts env st2 response_text of
                   (st3, scripts, outputs) \<Rightarrow>
                     if scripts \<noteq> [] then (record_outputs st3 outputs, full1, ContinueLoop)
                     else (st3, full1, BreakLoop))
              else (st2, full1, BreakLoop)))"

text \<open>The end of \<^verbatim>\<open>process_message\<close>, after the loop.\<close>

definition after_loop :: "Env \<Rightarrow> ChatCore \<Rightarrow> int \<Rightarrow> string \<Rightarrow> ChatCore \<times> ProcessResult" where
  "after_loop env st turn full_response =
     (st\<lparr>state := Idle\<rparr>,
      \<lparr>res_success = True, res_response = strip_idascript_blocks full_response,
       res_turns_used = turn,
       res_cost = map_option (\<lambda>c. estimate_cost (round_double env) (client_total_usage c))
                    (client st),
       res_error = [], res_cancelled = False\<rparr>)"


text \<open>The turn limit is read from the options at every pass; nothing in the body changes the
  options, which the termination of the loops needs.\<close>

lemma execute_script_options: "options (fst (execute_script env st c)) = options st"
  by (simp add: execute_script_def Let_def split: option.splits)

lemma run_blocks_options: "options (fst (run_blocks env st bs scripts outputs)) = options st"
proof (induction bs arbitrary: st scripts outputs)
  case Nil
  show ?case by simp
next
  case (Cons b bs)
  show ?case
  proof (cases "code b \<noteq> []")
    case True
    obtain st1 out where e: "execute_script env st (code b) = (st1, out)"
      by (cases "execute_script env st (code b)")
    with execute_script_options [of env st "code b"] have "options st1 = options st"
      by simp
    with True e Cons.IH [of st1] show ?thesis by simp
  next
    case False
    with Cons.IH [of st] show ?thesis by simp
  qed
qed

lemma process_scripts_options: "options (fst (process_scripts env st t)) = options st"
  by (simp add: process_scripts_def run_blocks_options)

lemma request_cancel_options: "options (request_cancel st) = options st"
  by (simp add: request_cancel_def)

lemma client_call_options: "options (fst (client_call env st request)) = options st"
  by (simp add: client_call_def Let_def request_cancel_options split: option.splits prod.splits)

lemma turn_body_options: "options (fst (turn_body env st full)) = options st"
proof -
  obtain st1 resp where c: "client_call env st (build_request st) = (st1, resp)"
    by (cases "client_call env st (build_request st)")
  with client_call_options [of env st "build_request st"] have o1: "options st1 = options st"
    by simp
  show ?thesis
  proof (cases resp)
    case None
    with c o1 show ?thesis by (simp add: turn_body_def)
  next
    case (Some r)
    obtain st3 scripts outputs
      where p: "process_scripts env (record_response st1 r) (get_text (resp_content r))
                  = (st3, scripts, outputs)"
      by (cases "process_scripts env (record_response st1 r) (get_text (resp_content r))")
    with process_scripts_options [of env "record_response st1 r" "get_text (resp_content r)"]
    have "options st3 = options st1" by (simp add: record_response_def)
    with c o1 Some p show ?thesis
      by (simp add: turn_body_def Let_def record_response_def record_outputs_def)
  qed
qed

text \<open>The loop of \<^verbatim>\<open>process_message\<close>: \<open>turn\<close> counts the turns started.\<close>

function process_loop :: "Env \<Rightarrow> ChatCore \<Rightarrow> int \<Rightarrow> string \<Rightarrow> ChatCore \<times> ProcessResult" where
  "process_loop env st turn full_response =
     (if turn < max_turns (options st) \<and> \<not> cancelled st then
        (case turn_body env st full_response of
           (st1, full1, ex) \<Rightarrow>
             (case ex of
                ContinueLoop \<Rightarrow> process_loop env st1 (turn + 1) full1
              | BreakLoop \<Rightarrow> after_loop env st1 (turn + 1) full1
              | ReturnResult result \<Rightarrow> (st1, result)))
      else after_loop env st turn full_response)"
  by pat_completeness auto
termination
proof (relation "measure (\<lambda>(env, st, turn, full). nat (max_turns (options st) - turn))")
  show "wf (measure (\<lambda>(env, st, turn, full). nat (max_turns (options st) - turn)))"
    by simp
next
  fix env :: Env and st st1 :: ChatCore and turn :: int and full_response full1 :: string
    and y :: "string \<times> LoopExit" and ex :: LoopExit
  assume a: "turn < max_turns (options st) \<and> \<not> cancelled st"
    and b: "(st1, y) = turn_body env st full_response"
  from b [symmetric] have "fst (turn_body env st full_response) = st1"
    by simp
  with turn_body_options [of env st full_response] have "options st1 = options st"
    by simp
  with a show "((env, st1, turn + 1, full1), (env, st, turn, full_response))
          \<in> measure (\<lambda>(env, st, turn, full). nat (max_turns (options st) - turn))"
    by simp
qed


declare process_loop.simps [simp del]

text \<open>The variables of the loop of \<^verbatim>\<open>process_message_cli\<close>.\<close>

record CliLoop =
  session_id :: string
  full_response :: string
  total_cost :: real
  total_turns :: int
  current_message :: string
  is_continue :: bool

definition cli_combined_output :: "string list \<Rightarrow> string" where
  "cli_combined_output outputs =
     foldl (\<lambda>combined out.
              combined @ ''```'' @ [CHR 0x0A] @ out @ [CHR 0x0A] @ ''```'' @ [CHR 0x0A, CHR 0x0A])
       (''Script execution results:'' @ [CHR 0x0A, CHR 0x0A]) outputs"

text \<open>The body of the loop of \<^verbatim>\<open>process_message_cli\<close>.\<close>

definition cli_body :: "Env \<Rightarrow> ChatCore \<Rightarrow> CliLoop \<Rightarrow> ChatCore \<times> CliLoop \<times> LoopExit" where
  "cli_body env st v =
     (let n = cli_calls st;
          cli_result = run_cli_call env n (current_message v) (session_id v) (is_continue v);
          st0 = st\<lparr>cli_calls := n + 1\<rparr>;
          st1 = (if cancel_requested env n then request_cancel st0 else st0)
      in if error_text cli_result \<noteq> [] then
           (st1\<lparr>state := Idle\<rparr>, v,
            ReturnResult (ProcessResult_default\<lparr>res_error := error_text cli_result\<rparr>))
         else if \<not> got_response cli_result then
           (st1\<lparr>state := Idle\<rparr>, v,
            ReturnResult (ProcessResult_default\<lparr>res_error := ''No response from Claude''\<rparr>))
         else
           (let v1 = v\<lparr>session_id := (if cli_session_id cli_result \<noteq> []
                                       then cli_session_id cli_result else session_id v),
                        full_response := full_response v @ response_text cli_result,
                        total_cost := round_double env (total_cost v + cli_cost cli_result),
                        total_turns := total_turns v + 1\<rparr>
            in if has_idascript_blocks (response_text cli_result) then
                 (case process_scripts env st1 (response_text cli_result) of
                    (st2, scripts, outputs) \<Rightarrow>
                      if scripts \<noteq> [] \<and> outputs \<noteq> [] then
                        (if session_id v1 = [] then (st2, v1, BreakLoop)
                         else (st2,
                               v1\<lparr>current_message := cli_combined_output outputs,
                                  is_continue := True\<rparr>,
                               ContinueLoop))
                      else (st2, v1, BreakLoop))
               else (st1, v1, BreakLoop)))"

definition cli_after_loop :: "ChatCore \<Rightarrow> CliLoop \<Rightarrow> ChatCore \<times> ProcessResult" where
  "cli_after_loop st v =
     (st\<lparr>state := Idle\<rparr>,
      \<lparr>res_success = True, res_response = strip_idascript_blocks (full_response v),
       res_turns_used = total_turns v, res_cost = Some (total_cost v),
       res_error = [], res_cancelled = False\<rparr>)"

lemma cli_body_options: "options (fst (cli_body env st v)) = options st"
proof -
  let ?n = "cli_calls st"
  let ?r = "run_cli_call env ?n (current_message v) (session_id v) (is_continue v)"
  let ?st0 = "st\<lparr>cli_calls := ?n + 1\<rparr>"
  let ?st1 = "if cancel_requested env ?n then request_cancel ?st0 else ?st0"
  have o1: "options ?st1 = options st"
    by (simp add: request_cancel_options)
  obtain st2 scripts outputs
    where p: "process_scripts env ?st1 (response_text ?r) = (st2, scripts, outputs)"
    by (cases "process_scripts env ?st1 (response_text ?r)")
  with process_scripts_options [of env ?st1 "response_text ?r"]
  have "options st2 = options ?st1" by simp
  with o1 have o2: "options st2 = options st" by simp
  show ?thesis
    using o1 o2 p unfolding cli_body_def Let_def
    by (simp split: if_splits)
qed

function cli_loop :: "Env \<Rightarrow> ChatCore \<Rightarrow> int \<Rightarrow> CliLoop \<Rightarrow> ChatCore \<times> ProcessResult" where
  "cli_loop env st turn v =
     (if turn < max_turns (options st) \<and> \<not> cancelled st then
        (case cli_body env st v of
           (st1, v1, ex) \<Rightarrow>
             (case ex of
                ContinueLoop \<Rightarrow> cli_loop env st1 (turn + 1) v1
              | BreakLoop \<Rightarrow> cli_after_loop st1 v1
              | ReturnResult result \<Rightarrow> (st1, result)))
      else cli_after_loop st v)"
  by pat_completeness auto
termination
proof (relation "measure (\<lambda>(env, st, turn, v). nat (max_turns (options st) - turn))")
  show "wf (measure (\<lambda>(env, st, turn, v). nat (max_turns (options st) - turn)))"
    by simp
next
  fix env :: Env and st st1 :: ChatCore and turn :: int and v v1 :: CliLoop
    and y :: "CliLoop \<times> LoopExit"
  assume a: "turn < max_turns (options st) \<and> \<not> cancelled st"
    and b: "(st1, y) = cli_body env st v"
  from b [symmetric] have "fst (cli_body env st v) = st1"
    by simp
  with cli_body_options [of env st v] have "options st1 = options st"
    by simp
  with a show "((env, st1, turn + 1, v1), (env, st, turn, v))
          \<in> measure (\<lambda>(env, st, turn, v). nat (max_turns (options st) - turn))"
    by simp
qed

declare cli_loop.simps [simp del]

definition process_message_cli :: "Env \<Rightarrow> ChatCore \<Rightarrow> string \<Rightarrow> ChatCore \<times> ProcessResult" where
  "process_message_cli env st user_input =
     cli_loop env (st\<lparr>state := Processing, cancelled := False\<rparr>) 0
       \<lparr>session_id = [], full_response = [], total_cost = 0, total_turns = 0,
        current_message = user_input, is_continue = False\<rparr>"

text \<open>\<^verbatim>\<open>ChatCore::process_message\<close>\<close>

definition process_message :: "Env \<Rightarrow> ChatCore \<Rightarrow> string \<Rightarrow> ChatCore \<times> ProcessResult" where
  "process_message env st user_input =
     (if \<not> is_connected st then (st, ProcessResult_default\<lparr>res_error := ''Not connected''\<rparr>)
      else if use_cli_mode st then process_message_cli env st user_input
      else
        process_loop env
          (st\<lparr>state := Processing, cancelled := False,
              conversation := conversation st @ [ClaudeMessage_user user_input]\<rparr>)
          0 [])"

section \<open>A session of model calls\<close>







section \<open>The marker pairs of a text\<close>

text \<open>
  A text reads as a sequence of segments followed by a trailing text. A segment is a
  marker pair with what precedes it: a text \<open>p\<close>, the opening tag, a body \<open>b\<close> and the
  closing tag. It is clean when the opening tag that ends \<open>p @ open_tag\<close> is the first one
  in it and the closing tag that ends \<open>b @ close_tag\<close> is the first one in it. The
  trailing text holds no marker pair: no opening tag with a closing tag after it. The
  block of a segment has the trimmed body as its code and \<open>p\<close> as its preceding text.
\<close>

definition segment :: "string \<times> string \<Rightarrow> string" where
  "segment s = fst s @ open_tag @ snd s @ close_tag"

definition clean_segment :: "string \<times> string \<Rightarrow> bool" where
  "clean_segment s =
     (find_sub open_tag (fst s @ open_tag) = Some (length (fst s))
      \<and> find_sub close_tag (snd s @ close_tag) = Some (length (snd s)))"

definition block_of :: "string \<times> string \<Rightarrow> ScriptBlock" where
  "block_of s = \<lparr>code = trim (snd s), preceding_text = fst s\<rparr>"

definition decomposes :: "string \<Rightarrow> (string \<times> string) list \<Rightarrow> string \<Rightarrow> bool" where
  "decomposes text segs t =
     (text = concat (map segment segs) @ t
      \<and> list_all clean_segment segs
      \<and> \<not> (\<exists>p b r. t = p @ open_tag @ b @ close_tag @ r))"


section \<open>The events of a complete message\<close>

text \<open>
  What a parser holds is determined by the events it has applied: \<open>replay\<close> applies a list
  of events to a new parser, and \<open>replay_inv\<close> says that a parser, its line buffer and its
  callback record aside, is the replay of the events its callback has received.
\<close>

definition replay :: "json_parse \<Rightarrow> StreamEvent list \<Rightarrow> Impl" where
  "replay parse evs = foldl (process_event parse) (StreamingParser_new []) evs"

definition replay_inv :: "json_parse \<Rightarrow> Impl \<Rightarrow> bool" where
  "replay_inv parse st = (st\<lparr>buffer := [], callback := []\<rparr> = replay parse (callback st))"

definition not_ping :: "StreamEvent \<Rightarrow> bool" where
  "not_ping e = (ev_type e \<noteq> Ping)"

text \<open>
  The frames of one content block: its \<^verbatim>\<open>ContentBlockStart\<close> event, its
  \<^verbatim>\<open>ContentBlockDelta\<close> events and its \<^verbatim>\<open>ContentBlockStop\<close> event, all for the same
  index, read as \<^verbatim>\<open>size_t\<close>. In a message the blocks come one after the other, the first
  with index 0.
\<close>

type_synonym block_frames = "StreamEvent \<times> StreamEvent list \<times> StreamEvent"

definition block_events :: "block_frames \<Rightarrow> StreamEvent list" where
  "block_events f = fst f # fst (snd f) @ [snd (snd f)]"

definition at_index :: "StreamEventType \<Rightarrow> nat \<Rightarrow> StreamEvent \<Rightarrow> bool" where
  "at_index t i e = (ev_type e = t \<and> size_t_of (ev_content_block_index e) = i)"

definition block_frames_ok :: "nat \<Rightarrow> block_frames \<Rightarrow> bool" where
  "block_frames_ok i f =
     (at_index ContentBlockStart i (fst f)
      \<and> list_all (at_index ContentBlockDelta i) (fst (snd f))
      \<and> at_index ContentBlockStop i (snd (snd f)))"

fun frames_ok :: "nat \<Rightarrow> block_frames list \<Rightarrow> bool" where
  "frames_ok i [] = True"
| "frames_ok i (f # fs) = (block_frames_ok i f \<and> frames_ok (Suc i) fs)"

text \<open>
  The assembled block of the frames of a block. \<open>delta_texts kind field ds\<close> is the
  concatenation, in order, of the field \<open>field\<close> of the deltas of kind \<open>kind\<close> among the
  events \<open>ds\<close>. The block starts as the block of the start event, an empty text block when
  the event carries none. A text block gets the texts of the text deltas appended, a
  thinking block those of the thinking deltas. A tool-use block gets as its input the
  value of the concatenated \<^verbatim>\<open>input_json_delta\<close> fragments, when they are not empty and the
  JSON parser accepts them, and keeps its input otherwise.
\<close>

definition delta_texts :: "string \<Rightarrow> (BlockDelta \<Rightarrow> string) \<Rightarrow> StreamEvent list \<Rightarrow> string" where
  "delta_texts kind field ds =
     concat (map field (filter (\<lambda>d. delta_type d = kind) (List.map_filter ev_delta ds)))"

definition start_block :: "StreamEvent \<Rightarrow> ContentBlock" where
  "start_block s = (case ev_content_block s of None \<Rightarrow> TextContent '''' | Some b \<Rightarrow> b)"

definition with_deltas :: "ContentBlock \<Rightarrow> StreamEvent list \<Rightarrow> ContentBlock" where
  "with_deltas b ds =
     (case b of
        TextContent t \<Rightarrow> TextContent (t @ delta_texts ''text_delta'' delta_text ds)
      | ThinkingContent t \<Rightarrow>
          ThinkingContent (t @ delta_texts ''thinking_delta'' delta_thinking ds)
      | ToolUseContent i n inp \<Rightarrow> ToolUseContent i n inp
      | ToolResultContent i c e \<Rightarrow> ToolResultContent i c e)"

definition assembled_block :: "json_parse \<Rightarrow> block_frames \<Rightarrow> ContentBlock" where
  "assembled_block parse f =
     (let ds = fst (snd f) in
      case start_block (fst f) of
        TextContent t \<Rightarrow> TextContent (t @ delta_texts ''text_delta'' delta_text ds)
      | ThinkingContent t \<Rightarrow>
          ThinkingContent (t @ delta_texts ''thinking_delta'' delta_thinking ds)
      | ToolUseContent i n inp \<Rightarrow>
          (let fragments = delta_texts ''input_json_delta'' delta_partial_json ds in
           if fragments = [] then ToolUseContent i n inp
           else (case parse fragments of
                   None \<Rightarrow> ToolUseContent i n inp
                 | Some v \<Rightarrow> ToolUseContent i n v))
      | ToolResultContent i c e \<Rightarrow> ToolResultContent i c e)"

text \<open>
  The assembled response of a message \<open>m\<close>, the frames \<open>fs\<close> of its blocks and its
  \<^verbatim>\<open>MessageDelta\<close> events \<open>mds\<close>: the message with the assembled blocks as its content
  and with the stop reason and the usage of the last \<^verbatim>\<open>MessageDelta\<close> event that
  carries one; \<open>latest\<close> gives the last value present in a list.
\<close>

definition latest :: "'a option list \<Rightarrow> 'a option" where
  "latest xs =
     (let ys = List.map_filter (\<lambda>x. x) xs in if ys = [] then None else Some (last ys))"

definition assembled_response ::
  "json_parse \<Rightarrow> CreateMessageResponse \<Rightarrow> block_frames list \<Rightarrow> StreamEvent list
     \<Rightarrow> CreateMessageResponse" where
  "assembled_response parse m fs mds =
     m\<lparr>resp_content := map (assembled_block parse) fs,
       resp_stop_reason :=
         (case latest (map ev_stop_reason mds) of
            None \<Rightarrow> resp_stop_reason m | Some sr \<Rightarrow> Some sr),
       resp_usage :=
         (case latest (map ev_usage mds) of None \<Rightarrow> resp_usage m | Some u \<Rightarrow> u)\<rparr>"

text \<open>
  The events \<open>evs\<close> are those of one complete message, in the order of the protocol: the
  \<^verbatim>\<open>MessageStart\<close> event \<open>s\<close> carrying the message \<open>m\<close>, the frames \<open>fs\<close> of the blocks
  0, 1, ... one block after the other, the \<^verbatim>\<open>MessageDelta\<close> events \<open>mds\<close> and the
  \<^verbatim>\<open>MessageStop\<close> event \<open>p\<close>.
\<close>

definition complete_message ::
  "StreamEvent list \<Rightarrow> StreamEvent \<Rightarrow> CreateMessageResponse \<Rightarrow> block_frames list
     \<Rightarrow> StreamEvent list \<Rightarrow> StreamEvent \<Rightarrow> bool" where
  "complete_message evs s m fs mds p =
     (evs = s # concat (map block_events fs) @ mds @ [p]
      \<and> ev_type s = MessageStart \<and> ev_message s = Some m
      \<and> frames_ok 0 fs
      \<and> list_all (\<lambda>e. ev_type e = MessageDelta) mds
      \<and> ev_type p = MessageStop)"


section \<open>Examples\<close>

text \<open>
  JSON texts used in the examples below, and the value of \<^verbatim>\<open>nlohmann::json::parse\<close> on
  each of them. \<open>example_parse\<close> knows these texts only and rejects every other one.
\<close>

definition json_text_message_start :: string where
  "json_text_message_start = ''{\"type\":\"message_start\",\"message\":{}}''"

definition json_text_message_usage :: string where
  "json_text_message_usage =
     ''{\"type\":\"message_start\",\"message\":{\"usage\":{\"input_tokens\":10,\"output_tokens\":5}}}''"

definition json_text_block_start :: string where
  "json_text_block_start =
     ''{\"type\":\"content_block_start\",\"index\":0,\"content_block\":{\"type\":\"text\",\"text\":\"\"}}''"

definition json_text_script_delta :: string where
  "json_text_script_delta =
     ''{\"type\":\"content_block_delta\",\"index\":0,\"delta\":{\"type\":\"text_delta\",\"text\":\"<idascript>print(1)</idascript>\"}}''"

definition json_text_message_stop :: string where
  "json_text_message_stop = ''{\"type\":\"message_stop\"}''"

definition example_parse :: json_parse where
  "example_parse s =
     (if s = json_text_message_start then
        Some (JObject [(''type'', JString ''message_start''), (''message'', JObject [])])
      else if s = json_text_message_usage then
        Some (JObject [(''type'', JString ''message_start''),
                       (''message'',
                          JObject [(''usage'',
                             JObject [(''input_tokens'', JInt 10), (''output_tokens'', JInt 5)])])])
      else if s = json_text_block_start then
        Some (JObject [(''type'', JString ''content_block_start''), (''index'', JInt 0),
                       (''content_block'',
                          JObject [(''type'', JString ''text''), (''text'', JString [])])])
      else if s = json_text_script_delta then
        Some (JObject [(''type'', JString ''content_block_delta''), (''index'', JInt 0),
                       (''delta'',
                          JObject [(''type'', JString ''text_delta''),
                                   (''text'', JString ''<idascript>print(1)</idascript>'')])])
      else if s = json_text_message_stop then
        Some (JObject [(''type'', JString ''message_stop'')])
      else None)"

text \<open>A stream whose only frame starts a message that reports a usage, and a stream whose
  reply is one text block holding a script.\<close>

definition example_stream :: "nat \<Rightarrow> json \<Rightarrow> string list" where
  "example_stream n j = [''data: '' @ json_text_message_usage @ [CHR 0x0A]]"

definition example_script_stream :: "nat \<Rightarrow> json \<Rightarrow> string list" where
  "example_script_stream n j =
     [''data: '' @ json_text_message_usage @ [CHR 0x0A],
      ''data: '' @ json_text_block_start @ [CHR 0x0A] @ ''data: '' @ json_text_script_delta,
      [CHR 0x0A] @ ''data: '' @ json_text_message_stop @ [CHR 0x0A]]"

definition exact_rounding :: "real \<Rightarrow> real" where
  "exact_rounding x = x"

definition example_client :: ClaudeClient where
  "example_client =
     \<lparr>api_key = ''key'', client_model = ''claude-sonnet-4-20250514'',
      client_total_usage = TokenUsage_default, client_cancelled = False, http_requests = 0\<rparr>"


definition example_executor :: "nat \<Rightarrow> string \<Rightarrow> ScriptResult" where
  "example_executor n c = \<lparr>script_success = True, script_output = ''1'', script_error = []\<rparr>"

definition example_cli :: "nat \<Rightarrow> string \<Rightarrow> string \<Rightarrow> bool \<Rightarrow> CLIResponse" where
  "example_cli n m sid cont =
     \<lparr>response_text = [], error_text = ''Failed to execute Claude CLI'', got_response = False,
      cli_cost = 0, num_turns = 1, cli_session_id = []\<rparr>"

definition never_cancel :: "nat \<Rightarrow> bool" where
  "never_cancel n = False"

definition example_env :: Env where
  "example_env =
     \<lparr>json_parser = example_parse, stream_request = example_stream, run_cli_call = example_cli,
      script_executor = Some example_executor, round_double = exact_rounding,
      cancel_requested = never_cancel\<rparr>"

definition example_script_env :: Env where
  "example_script_env = example_env\<lparr>stream_request := example_script_stream\<rparr>"

text \<open>A connected controller in network mode, idle, with the default options, and the
  same with a limit of one turn.\<close>

definition example_core :: ChatCore where
  "example_core =
     \<lparr>options = \<lparr>max_turns = 20, verbose = False, options_model = ''claude-sonnet-4-20250514'',
                 enable_thinking = False, thinking_budget = 10000\<rparr>,
      client = Some example_client, conversation = [], system_prompt = [], cancelled = False,
      state = Idle, total_usage = TokenUsage_default, use_cli_mode = False, cli_path = [],
      cli_calls = 0, executed = []\<rparr>"

definition example_core_one_turn :: ChatCore where
  "example_core_one_turn = example_core\<lparr>options := (options example_core)\<lparr>max_turns := 1\<rparr>\<rparr>"

text \<open>The reply of \<open>example_script_stream\<close>, the controller after the transport call that
  receives it, and the controller after the scripts of the reply have run.\<close>

definition example_reply :: CreateMessageResponse where
  "example_reply =
     \<lparr>resp_id = [], resp_model = [], resp_stop_reason = None,
      resp_content = [TextContent ''<idascript>print(1)</idascript>''],
      resp_usage = \<lparr>input_tokens = 10, output_tokens = 5, cache_read_tokens = 0,
                    cache_creation_tokens = 0\<rparr>\<rparr>"

definition example_after_call :: ChatCore where
  "example_after_call =
     example_core_one_turn
       \<lparr>client := Some (example_client\<lparr>client_total_usage := resp_usage example_reply,
                                       http_requests := 1\<rparr>)\<rparr>"

definition example_after_scripts :: ChatCore where
  "example_after_scripts =
     (record_response example_after_call example_reply)\<lparr>executed := [''print(1)'']\<rparr>"

text \<open>A parser holding one thinking block, and a text delta for index 0.\<close>

definition example_thinking_parser :: Impl where
  "example_thinking_parser =
     (StreamingParser_new [])\<lparr>content_blocks := [ThinkingContent ''hm''], partial_jsons := [[]]\<rparr>"

definition example_text_delta :: BlockDelta where
  "example_text_delta =
     \<lparr>delta_index = 0, delta_type = ''text_delta'', delta_text = ''abc'',
      delta_partial_json = [], delta_thinking = []\<rparr>"

definition example_delta_event :: StreamEvent where
  "example_delta_event =
     (StreamEvent_of_type ContentBlockDelta)\<lparr>ev_delta := Some example_text_delta\<rparr>"


text \<open>
  The frames of a message of two blocks, a text block sent in two deltas and a tool-use
  block whose input is sent in two fragments, with a ping between them, and the value of
  \<^verbatim>\<open>nlohmann::json::parse\<close> on each of these texts and on the concatenated fragments.
\<close>

definition json_text_ping :: string where
  "json_text_ping = ''{\"type\":\"ping\"}''"

definition json_text_delta_hel :: string where
  "json_text_delta_hel =
     ''{\"type\":\"content_block_delta\",\"index\":0,\"delta\":{\"type\":\"text_delta\",\"text\":\"Hel\"}}''"

definition json_text_delta_lo :: string where
  "json_text_delta_lo =
     ''{\"type\":\"content_block_delta\",\"index\":0,\"delta\":{\"type\":\"text_delta\",\"text\":\"lo\"}}''"

definition json_text_block_stop :: string where
  "json_text_block_stop = ''{\"type\":\"content_block_stop\",\"index\":0}''"

definition json_text_tool_start :: string where
  "json_text_tool_start =
     ''{\"type\":\"content_block_start\",\"index\":1,\"content_block\":{\"type\":\"tool_use\",\"id\":\"t1\",\"name\":\"idascript\",\"input\":{}}}''"

definition json_text_tool_delta_a :: string where
  "json_text_tool_delta_a =
     ''{\"type\":\"content_block_delta\",\"index\":1,\"delta\":{\"type\":\"input_json_delta\",\"partial_json\":\"[1,\"}}''"

definition json_text_tool_delta_b :: string where
  "json_text_tool_delta_b =
     ''{\"type\":\"content_block_delta\",\"index\":1,\"delta\":{\"type\":\"input_json_delta\",\"partial_json\":\"2]\"}}''"

definition json_text_tool_stop :: string where
  "json_text_tool_stop = ''{\"type\":\"content_block_stop\",\"index\":1}''"

definition json_text_message_delta :: string where
  "json_text_message_delta =
     ''{\"type\":\"message_delta\",\"delta\":{\"stop_reason\":\"tool_use\"},\"usage\":{\"output_tokens\":7}}''"

definition message_parse :: json_parse where
  "message_parse s =
     (if s = json_text_ping then Some (JObject [(''type'', JString ''ping'')])
      else if s = json_text_delta_hel then
        Some (JObject [(''type'', JString ''content_block_delta''), (''index'', JInt 0),
                       (''delta'',
                          JObject [(''type'', JString ''text_delta''), (''text'', JString ''Hel'')])])
      else if s = json_text_delta_lo then
        Some (JObject [(''type'', JString ''content_block_delta''), (''index'', JInt 0),
                       (''delta'',
                          JObject [(''type'', JString ''text_delta''), (''text'', JString ''lo'')])])
      else if s = json_text_block_stop then
        Some (JObject [(''type'', JString ''content_block_stop''), (''index'', JInt 0)])
      else if s = json_text_tool_start then
        Some (JObject [(''type'', JString ''content_block_start''), (''index'', JInt 1),
                       (''content_block'',
                          JObject [(''type'', JString ''tool_use''), (''id'', JString ''t1''),
                                   (''name'', JString ''idascript''), (''input'', JObject [])])])
      else if s = json_text_tool_delta_a then
        Some (JObject [(''type'', JString ''content_block_delta''), (''index'', JInt 1),
                       (''delta'',
                          JObject [(''type'', JString ''input_json_delta''),
                                   (''partial_json'', JString ''[1,'')])])
      else if s = json_text_tool_delta_b then
        Some (JObject [(''type'', JString ''content_block_delta''), (''index'', JInt 1),
                       (''delta'',
                          JObject [(''type'', JString ''input_json_delta''),
                                   (''partial_json'', JString ''2]'')])])
      else if s = json_text_tool_stop then
        Some (JObject [(''type'', JString ''content_block_stop''), (''index'', JInt 1)])
      else if s = json_text_message_delta then
        Some (JObject [(''type'', JString ''message_delta''),
                       (''delta'', JObject [(''stop_reason'', JString ''tool_use'')]),
                       (''usage'', JObject [(''output_tokens'', JInt 7)])])
      else if s = ''[1,2]'' then Some (JArray [JInt 1, JInt 2])
      else example_parse s)"

text \<open>The event that the frame with data \<open>s\<close> decodes to.\<close>

definition event_of :: "string \<Rightarrow> StreamEvent" where
  "event_of s =
     (case message_parse s of
        None \<Rightarrow> StreamEvent_of_type Error
      | Some j \<Rightarrow>
          (case from_json_StreamEvent j of None \<Rightarrow> StreamEvent_of_type Error | Some e \<Rightarrow> e))"

text \<open>
  The message as it arrives in three chunks that cut through the lines, one line ending in
  a carriage return and a line feed, the last one with no line end; the message of its
  first frame, the frames of its two blocks, and the response assembled from them.
\<close>

definition example_message_chunks :: "string list" where
  "example_message_chunks =
     [''event: message_start'' @ [CHR 0x0A] @ ''data: '' @ json_text_message_usage
        @ [CHR 0x0A, CHR 0x0A] @ ''data: '' @ json_text_block_start @ [CHR 0x0A]
        @ ''data: '' @ json_text_ping,
      [CHR 0x0A] @ ''data: '' @ json_text_delta_hel @ [CHR 0x0D, CHR 0x0A]
        @ ''data: '' @ json_text_delta_lo @ [CHR 0x0A]
        @ ''data: '' @ json_text_block_stop @ [CHR 0x0A]
        @ ''data: '' @ json_text_tool_start @ [CHR 0x0A]
        @ ''data: '' @ json_text_tool_delta_a @ [CHR 0x0A],
      ''data: '' @ json_text_tool_delta_b @ [CHR 0x0A]
        @ ''data: '' @ json_text_tool_stop @ [CHR 0x0A]
        @ ''data: '' @ json_text_message_delta @ [CHR 0x0A]
        @ ''data: '' @ json_text_message_stop]"

definition example_message :: CreateMessageResponse where
  "example_message =
     \<lparr>resp_id = [], resp_model = [], resp_stop_reason = None, resp_content = [],
      resp_usage = \<lparr>input_tokens = 10, output_tokens = 5, cache_read_tokens = 0,
                    cache_creation_tokens = 0\<rparr>\<rparr>"

definition example_frames :: "block_frames list" where
  "example_frames =
     [(event_of json_text_block_start,
       [event_of json_text_delta_hel, event_of json_text_delta_lo],
       event_of json_text_block_stop),
      (event_of json_text_tool_start,
       [event_of json_text_tool_delta_a, event_of json_text_tool_delta_b],
       event_of json_text_tool_stop)]"

definition example_assembled :: CreateMessageResponse where
  "example_assembled =
     \<lparr>resp_id = [], resp_model = [], resp_stop_reason = Some ToolUse,
      resp_content =
        [TextContent ''Hello'', ToolUseContent ''t1'' ''idascript'' (JArray [JInt 1, JInt 2])],
      resp_usage = \<lparr>input_tokens = 0, output_tokens = 7, cache_read_tokens = 0,
                    cache_creation_tokens = 0\<rparr>\<rparr>"








section \<open>The events a parser has seen\<close>

text \<open>The callback receives every event that \<open>process_line\<close> has decoded and applied, so
  its record is the sequence of events observed in the stream.\<close>

definition observed :: "Impl \<Rightarrow> StreamEventType \<Rightarrow> bool" where
  "observed st t = (t \<in> set (map ev_type (callback st)))"

definition observed_message :: "Impl \<Rightarrow> bool" where
  "observed_message st =
     (filter (\<lambda>e. ev_type e = MessageStart \<and> ev_message e \<noteq> None) (callback st) \<noteq> [])"

definition parser_inv :: "Impl \<Rightarrow> bool" where
  "parser_inv st =
     ((response st \<noteq> None) = observed_message st \<and> complete st = observed st MessageStop)"


section \<open>Properties of the streaming parser\<close>

lemma process_event_buffer_upd:
  "process_event parse (st\<lparr>buffer := b\<rparr>) e = (process_event parse st e)\<lparr>buffer := b\<rparr>"
  by (simp add: process_event_def Let_def split: StreamEventType.splits option.splits)

lemma process_line_buffer_upd:
  "process_line parse (st\<lparr>buffer := b\<rparr>) l = (process_line parse st l)\<lparr>buffer := b\<rparr>"
  by (auto simp: process_line_def Let_def process_event_buffer_upd split: option.splits)

lemma find_char_append:
  "find_char c a = Some p \<Longrightarrow> find_char c (a @ b) = Some p"
  by (induction a arbitrary: p) (auto split: if_splits)

lemma feed_step_append:
  assumes "pos < length (buffer st)"
  shows "feed_step parse (st\<lparr>buffer := buffer st @ d\<rparr>) pos
           = (feed_step parse st pos)\<lparr>buffer := buffer (feed_step parse st pos) @ d\<rparr>"
  using assms
  by (simp add: feed_step_def Let_def process_line_buffer_upd process_line_buffer)

text \<open>Running the loop on a buffer with more data appended is running it first, appending
  the data to what it left and running it again.\<close>

lemma feed_loop_append:
  "feed_loop parse (st\<lparr>buffer := buffer st @ d\<rparr>)
     = feed_loop parse ((feed_loop parse st)\<lparr>buffer := buffer (feed_loop parse st) @ d\<rparr>)"
proof (induction parse st rule: feed_loop.induct)
  case (1 parse st)
  show ?case
  proof (cases "find_char (CHR 0x0A) (buffer st)")
    case None
    then show ?thesis by (simp add: feed_loop.simps [of parse st])
  next
    case (Some pos)
    then have lt: "pos < length (buffer st)" by (rule find_char_less)
    from Some have app: "find_char (CHR 0x0A) (buffer st @ d) = Some pos"
      by (rule find_char_append)
    have "feed_loop parse (st\<lparr>buffer := buffer st @ d\<rparr>)
            = feed_loop parse (feed_step parse (st\<lparr>buffer := buffer st @ d\<rparr>) pos)"
      using app by (simp add: feed_loop.simps [of parse "st\<lparr>buffer := buffer st @ d\<rparr>"])
    also have "\<dots> = feed_loop parse
                      ((feed_step parse st pos)\<lparr>buffer := buffer (feed_step parse st pos) @ d\<rparr>)"
      using lt by (simp add: feed_step_append)
    also have "\<dots> = feed_loop parse ((feed_loop parse (feed_step parse st pos))
                 \<lparr>buffer := buffer (feed_loop parse (feed_step parse st pos)) @ d\<rparr>)"
      using "1.IH" [OF Some] .
    also have "feed_loop parse (feed_step parse st pos) = feed_loop parse st"
      using Some by (simp add: feed_loop.simps [of parse st])
    finally show ?thesis .
  qed
qed

lemma feed_feed: "feed parse (feed parse st a) b = feed parse st (a @ b)"
proof -
  let ?s = "st\<lparr>buffer := buffer st @ a\<rparr>"
  have "feed parse st (a @ b) = feed_loop parse (?s\<lparr>buffer := buffer ?s @ b\<rparr>)"
    by (simp add: feed_def)
  also have "\<dots> = feed_loop parse
                    ((feed_loop parse ?s)\<lparr>buffer := buffer (feed_loop parse ?s) @ b\<rparr>)"
    by (rule feed_loop_append)
  finally show ?thesis by (simp add: feed_def)
qed

text \<open>The block array and the fragment array keep the same length.\<close>

lemma process_event_lengths:
  assumes "length (partial_jsons st) = length (content_blocks st)"
  shows "length (partial_jsons (process_event parse st e))
           = length (content_blocks (process_event parse st e))"
  using assms
  by (simp add: process_event_def Let_def split: StreamEventType.splits option.splits)

text \<open>
  C4. Feeding a byte string in two calls, split at any position \<open>k\<close>, and then finishing
  leaves the parser in the same state, and so with the same response, as feeding the whole
  string in one call and finishing. This holds for every byte string (complete frame
  sequence or not), every parser state to start from and every behaviour of the JSON
  parser.
\<close>

theorem feed_split_invariant:
  "finish parse (feed parse (feed parse st (take k s)) (drop k s)) = finish parse (feed parse st s)
   \<and> get_response (finish parse (feed parse (feed parse st (take k s)) (drop k s)))
       = get_response (finish parse (feed parse st s))"
  by (simp add: feed_feed)

text \<open>
  C8. After \<open>reset\<close> the parser is the one the constructor builds for the same callback:
  no error, no response, not complete, and an empty line buffer, block array and fragment
  array. This holds from every state, reachable or not.
\<close>

theorem reset_is_fresh:
  "reset st = StreamingParser_new (callback st)
   \<and> \<not> parser_has_error (reset st)
   \<and> get_response (reset st) = None
   \<and> \<not> is_complete (reset st)
   \<and> buffer (reset st) = []
   \<and> content_blocks (reset st) = []
   \<and> partial_jsons (reset st) = []"
  by (simp add: reset_def StreamingParser_new_def parser_has_error_def get_response_def
      is_complete_def)

text \<open>
  C10. A \<^verbatim>\<open>ContentBlockDelta\<close> event whose index is outside the block array, or that is a
  text delta for a block that is not a text block, or a thinking delta for a block that is
  not a thinking block, leaves the whole parser state as it was: the block array, the
  fragment buffers and the error flag in particular. The index is read as \<^verbatim>\<open>size_t\<close>, so
  a negative index is outside the array. (An \<^verbatim>\<open>input_json_delta\<close> is not among the kinds
  the claim lists: for an index in range its fragment is stored whatever the block is.)
\<close>

theorem delta_mismatch_ignored:
  assumes "ev_type e = ContentBlockDelta" and "ev_delta e = Some d"
    and "length (content_blocks st) \<le> size_t_of (ev_content_block_index e)
         \<or> (delta_type d = ''text_delta''
             \<and> \<not> is_Text (content_blocks st ! size_t_of (ev_content_block_index e)))
         \<or> (delta_type d = ''thinking_delta''
             \<and> \<not> is_Thinking (content_blocks st ! size_t_of (ev_content_block_index e)))"
  shows "process_event parse st e = st
         \<and> content_blocks (process_event parse st e) = content_blocks st
         \<and> partial_jsons (process_event parse st e) = partial_jsons st
         \<and> has_error (process_event parse st e) = has_error st"
proof -
  have t: "\<not> is_Text b \<Longrightarrow> append_text b s = b" for b s by (cases b) simp_all
  have k: "\<not> is_Thinking b \<Longrightarrow> append_thinking b s = b" for b s by (cases b) simp_all
  have "process_event parse st e = st"
    using assms by (auto simp: process_event_def Let_def t k)
  then show ?thesis by simp
qed

theorem delta_mismatch_ignored_witness:
  "ev_type example_delta_event = ContentBlockDelta
   \<and> ev_delta example_delta_event = Some example_text_delta
   \<and> delta_type example_text_delta = ''text_delta''
   \<and> \<not> is_Text (content_blocks example_thinking_parser
                   ! size_t_of (ev_content_block_index example_delta_event))
   \<and> process_event example_parse example_thinking_parser example_delta_event
       = example_thinking_parser"
proof -
  have a: "ev_type example_delta_event = ContentBlockDelta"
    by (simp add: example_delta_event_def StreamEvent_of_type_def)
  have b: "ev_delta example_delta_event = Some example_text_delta"
    by (simp add: example_delta_event_def)
  have c: "delta_type example_text_delta = ''text_delta''"
    by (simp add: example_text_delta_def)
  have d: "\<not> is_Text (content_blocks example_thinking_parser
                        ! size_t_of (ev_content_block_index example_delta_event))"
    by (simp add: example_thinking_parser_def example_delta_event_def StreamEvent_of_type_def
        size_t_of_def)
  from delta_mismatch_ignored [OF a b, of example_thinking_parser example_parse] c d
  have "process_event example_parse example_thinking_parser example_delta_event
          = example_thinking_parser"
    by simp
  with a b c d show ?thesis by simp
qed

lemma process_event_callback: "callback (process_event parse st e) = callback st"
  by (simp add: process_event_def Let_def split: StreamEventType.splits option.splits)

lemma process_event_response:
  "(response (process_event parse st e) \<noteq> None)
     = (response st \<noteq> None \<or> (ev_type e = MessageStart \<and> ev_message e \<noteq> None))"
  by (auto simp: process_event_def Let_def split: StreamEventType.splits option.splits)

lemma process_event_complete:
  "complete (process_event parse st e) = (complete st \<or> ev_type e = MessageStop)"
  by (auto simp: process_event_def Let_def split: StreamEventType.splits option.splits)

lemma observed_message_snoc:
  "observed_message (s\<lparr>callback := callback st @ [e]\<rparr>)
     = (observed_message st \<or> (ev_type e = MessageStart \<and> ev_message e \<noteq> None))"
  by (auto simp: observed_message_def)

lemma observed_snoc:
  "observed (s\<lparr>callback := callback st @ [e]\<rparr>) t = (observed st t \<or> ev_type e = t)"
  by (auto simp: observed_def)

lemma parser_inv_event:
  assumes "parser_inv st"
  shows "parser_inv ((process_event parse st e)
                       \<lparr>callback := callback (process_event parse st e) @ [e]\<rparr>)"
proof -
  let ?s = "process_event parse st e"
  from assms have a: "(response st \<noteq> None) = observed_message st"
    and b: "complete st = observed st MessageStop"
    by (simp_all add: parser_inv_def)
  have "(response ?s \<noteq> None) = observed_message (?s\<lparr>callback := callback st @ [e]\<rparr>)"
    unfolding process_event_response observed_message_snoc a ..
  moreover have "complete ?s = observed (?s\<lparr>callback := callback st @ [e]\<rparr>) MessageStop"
    unfolding process_event_complete observed_snoc b by auto
  ultimately show ?thesis
    by (simp add: parser_inv_def process_event_callback)
qed

lemma parser_inv_line: "parser_inv st \<Longrightarrow> parser_inv (process_line parse st l)"
  by (auto simp: process_line_def Let_def parser_inv_event split: option.splits)

lemma parser_inv_buffer: "parser_inv (st\<lparr>buffer := b\<rparr>) = parser_inv st"
  by (simp add: parser_inv_def observed_def observed_message_def)

lemma parser_inv_step: "parser_inv st \<Longrightarrow> parser_inv (feed_step parse st pos)"
  by (simp add: feed_step_def Let_def parser_inv_line parser_inv_buffer)

lemma parser_inv_loop: "parser_inv st \<Longrightarrow> parser_inv (feed_loop parse st)"
proof (induction parse st rule: feed_loop.induct)
  case (1 parse st)
  then show ?case
    by (cases "find_char (CHR 0x0A) (buffer st)")
       (simp_all add: feed_loop.simps [of parse st] parser_inv_step)
qed

lemma parser_inv_feed: "parser_inv st \<Longrightarrow> parser_inv (feed parse st d)"
  by (simp add: feed_def parser_inv_loop parser_inv_buffer)

lemma parser_inv_feeds: "parser_inv st \<Longrightarrow> parser_inv (foldl (feed parse) st chunks)"
  by (induction chunks arbitrary: st) (simp_all add: parser_inv_feed)

lemma parser_inv_finish: "parser_inv st \<Longrightarrow> parser_inv (finish parse st)"
  by (simp add: finish_def parser_inv_line parser_inv_buffer)

lemma parser_inv_new: "parser_inv (StreamingParser_new [])"
  by (simp add: parser_inv_def observed_def observed_message_def StreamingParser_new_def)

text \<open>The line buffer and the callback record have no part in what an event does, so a
  parser stays the replay of the events it has handed to its callback.\<close>

lemma process_event_upd:
  "process_event parse (st\<lparr>buffer := b, callback := c\<rparr>) e
     = (process_event parse st e)\<lparr>buffer := b, callback := c\<rparr>"
  by (simp add: process_event_def Let_def split: StreamEventType.splits option.splits)

lemma replay_inv_event:
  assumes "replay_inv parse st"
  shows "replay_inv parse ((process_event parse st e)
                       \<lparr>callback := callback (process_event parse st e) @ [e]\<rparr>)"
proof -
  have "(process_event parse st e)\<lparr>buffer := [], callback := []\<rparr>
          = process_event parse (st\<lparr>buffer := [], callback := []\<rparr>) e"
    by (simp add: process_event_upd)
  also have "\<dots> = replay parse (callback st @ [e])"
    using assms by (simp add: replay_inv_def replay_def)
  finally show ?thesis
    by (simp add: replay_inv_def process_event_callback)
qed

lemma replay_inv_line: "replay_inv parse st \<Longrightarrow> replay_inv parse (process_line parse st l)"
  by (auto simp: process_line_def Let_def replay_inv_event split: option.splits)

lemma replay_inv_buffer: "replay_inv parse (st\<lparr>buffer := b\<rparr>) = replay_inv parse st"
  by (simp add: replay_inv_def)

lemma replay_inv_step: "replay_inv parse st \<Longrightarrow> replay_inv parse (feed_step parse st pos)"
  by (simp add: feed_step_def Let_def replay_inv_line replay_inv_buffer)

lemma replay_inv_loop: "replay_inv parse st \<Longrightarrow> replay_inv parse (feed_loop parse st)"
proof (induction parse st rule: feed_loop.induct)
  case (1 parse st)
  then show ?case
    by (cases "find_char (CHR 0x0A) (buffer st)")
       (simp_all add: feed_loop.simps [of parse st] replay_inv_step)
qed

lemma replay_inv_feed: "replay_inv parse st \<Longrightarrow> replay_inv parse (feed parse st d)"
  by (simp add: feed_def replay_inv_loop replay_inv_buffer)

lemma replay_inv_feeds: "replay_inv parse st \<Longrightarrow> replay_inv parse (foldl (feed parse) st chunks)"
  by (induction chunks arbitrary: st) (simp_all add: replay_inv_feed)

lemma replay_inv_finish: "replay_inv parse st \<Longrightarrow> replay_inv parse (finish parse st)"
  by (simp add: finish_def replay_inv_line replay_inv_buffer)

lemma replay_inv_new: "replay_inv parse (StreamingParser_new [])"
  by (simp add: replay_inv_def replay_def StreamingParser_new_def)

text \<open>A ping changes nothing.\<close>

lemma foldl_pings:
  "foldl (process_event parse) st (filter not_ping evs) = foldl (process_event parse) st evs"
  by (induction evs arbitrary: st) (simp_all add: not_ping_def process_event_def)

text \<open>After any feeds and \<open>finish\<close>, a parser that was new is the replay of the events it
  has observed, pings aside.\<close>

lemma state_replay:
  "(finish parse (foldl (feed parse) (StreamingParser_new []) chunks))
       \<lparr>buffer := [], callback := []\<rparr>
     = replay parse
         (filter not_ping
            (callback (finish parse (foldl (feed parse) (StreamingParser_new []) chunks))))"
proof -
  let ?st = "finish parse (foldl (feed parse) (StreamingParser_new []) chunks)"
  have "replay_inv parse ?st"
    by (intro replay_inv_finish replay_inv_feeds replay_inv_new)
  then show ?thesis
    by (simp add: replay_inv_def replay_def foldl_pings)
qed

text \<open>When the last event is a \<^verbatim>\<open>MessageStop\<close>, the content of the response, if there is
  one, is the block array.\<close>

lemma replay_message_stop:
  assumes "ev_type p = MessageStop" and "response (replay parse (ys @ [p])) \<noteq> None"
  shows "map_option resp_content (response (replay parse (ys @ [p])))
           = Some (content_blocks (replay parse (ys @ [p])))"
  using assms
  by (simp add: replay_def process_event_def split: option.splits)

text \<open>The events of a block whose index is the length of the block array add one block to
  the array, the assembled one, and one string to the fragment array.\<close>

lemma snoc_update: "length xs = i \<Longrightarrow> (xs @ [x])[i := y] = xs @ [y]"
  by auto

lemma snoc_nth: "length xs = i \<Longrightarrow> (xs @ [x]) ! i = x"
  by auto

lemma delta_texts_Nil: "delta_texts kind field [] = []"
  by (simp add: delta_texts_def List.map_filter_simps)

lemma delta_texts_Cons:
  "delta_texts kind field (e # ds)
     = (case ev_delta e of
          None \<Rightarrow> []
        | Some d \<Rightarrow> if delta_type d = kind then field d else []) @ delta_texts kind field ds"
  by (simp add: delta_texts_def List.map_filter_simps split: option.splits)

lemma with_deltas_Nil: "with_deltas b [] = b"
  by (cases b) (simp_all add: with_deltas_def delta_texts_Nil)

lemma start_step:
  assumes "at_index ContentBlockStart (length cbs) s" and "length pjs = length cbs"
  shows "process_event parse (st\<lparr>content_blocks := cbs, partial_jsons := pjs\<rparr>) s
           = st\<lparr>content_blocks := cbs @ [start_block s], partial_jsons := pjs @ ['''']\<rparr>"
  using assms
  by (simp add: process_event_def at_index_def start_block_def Let_def snoc_update
      split: option.splits)

lemma delta_step:
  assumes "at_index ContentBlockDelta (length cbs) e" and "length pjs = length cbs"
  shows "process_event parse (st\<lparr>content_blocks := cbs @ [b], partial_jsons := pjs @ [pj]\<rparr>) e
           = st\<lparr>content_blocks := cbs @ [with_deltas b [e]],
                partial_jsons :=
                  pjs @ [pj @ delta_texts ''input_json_delta'' delta_partial_json [e]]\<rparr>"
proof (cases "ev_delta e")
  case None
  with assms show ?thesis
    by (cases b)
       (simp_all add: process_event_def at_index_def delta_texts_Cons delta_texts_Nil
          with_deltas_def)
next
  case (Some d)
  with assms show ?thesis
    by (cases b)
       (simp_all add: process_event_def at_index_def delta_texts_Cons delta_texts_Nil
          with_deltas_def Let_def snoc_update snoc_nth)
qed

lemma with_deltas_Cons: "with_deltas (with_deltas b [e]) ds = with_deltas b (e # ds)"
  by (cases b) (simp_all add: with_deltas_def delta_texts_Cons delta_texts_Nil)

lemma deltas_fold:
  assumes "list_all (at_index ContentBlockDelta (length cbs)) ds" and "length pjs = length cbs"
  shows "foldl (process_event parse)
           (st\<lparr>content_blocks := cbs @ [b], partial_jsons := pjs @ [pj]\<rparr>) ds
           = st\<lparr>content_blocks := cbs @ [with_deltas b ds],
                partial_jsons :=
                  pjs @ [pj @ delta_texts ''input_json_delta'' delta_partial_json ds]\<rparr>"
  using assms
proof (induction ds arbitrary: b pj)
  case Nil
  show ?case by (simp add: with_deltas_Nil delta_texts_Nil)
next
  case (Cons e ds)
  from Cons.prems have e: "at_index ContentBlockDelta (length cbs) e"
    and ds: "list_all (at_index ContentBlockDelta (length cbs)) ds"
    by simp_all
  show ?case
    by (simp add: delta_step [OF e Cons.prems(2)] Cons.IH [OF ds Cons.prems(2)]
        with_deltas_Cons delta_texts_Cons [of _ _ e ds] delta_texts_Cons [of _ _ e "[]"]
        delta_texts_Nil)
qed

lemma stop_step:
  assumes "at_index ContentBlockStop (length cbs) p" and "length pjs = length cbs"
  shows "process_event parse (st\<lparr>content_blocks := cbs @ [b], partial_jsons := pjs @ [pj]\<rparr>) p
           = st\<lparr>content_blocks := cbs @ [finalize_tool parse b pj],
                partial_jsons := pjs @ [pj]\<rparr>"
  using assms
  by (simp add: process_event_def at_index_def Let_def snoc_update snoc_nth)

lemma finalize_assembled:
  "finalize_tool parse (with_deltas (start_block (fst f)) (fst (snd f)))
       (delta_texts ''input_json_delta'' delta_partial_json (fst (snd f)))
     = assembled_block parse f"
  by (cases "start_block (fst f)")
     (simp_all add: assembled_block_def with_deltas_def Let_def split: option.splits)

lemma block_fold:
  assumes ok: "block_frames_ok (length cbs) f" and len: "length pjs = length cbs"
  shows "foldl (process_event parse) (st\<lparr>content_blocks := cbs, partial_jsons := pjs\<rparr>)
           (block_events f)
           = st\<lparr>content_blocks := cbs @ [assembled_block parse f],
                partial_jsons :=
                  pjs @ [delta_texts ''input_json_delta'' delta_partial_json (fst (snd f))]\<rparr>"
proof -
  from ok have s: "at_index ContentBlockStart (length cbs) (fst f)"
    and d: "list_all (at_index ContentBlockDelta (length cbs)) (fst (snd f))"
    and p: "at_index ContentBlockStop (length cbs) (snd (snd f))"
    by (simp_all add: block_frames_ok_def)
  show ?thesis
    by (simp add: block_events_def start_step [OF s len] deltas_fold [OF d len]
        stop_step [OF p len] finalize_assembled)
qed

lemma blocks_fold:
  assumes "frames_ok (length cbs) fs" and "length pjs = length cbs"
  shows "foldl (process_event parse) (st\<lparr>content_blocks := cbs, partial_jsons := pjs\<rparr>)
           (concat (map block_events fs))
           = st\<lparr>content_blocks := cbs @ map (assembled_block parse) fs,
                partial_jsons :=
                  pjs @ map (\<lambda>f. delta_texts ''input_json_delta'' delta_partial_json
                                    (fst (snd f))) fs\<rparr>"
  using assms
proof (induction fs arbitrary: cbs pjs)
  case Nil
  show ?case by simp
next
  case (Cons f fs)
  from Cons.prems have ok: "block_frames_ok (length cbs) f"
    and rest: "frames_ok (length (cbs @ [assembled_block parse f])) fs"
    by simp_all
  have len: "length (pjs @ [delta_texts ''input_json_delta'' delta_partial_json (fst (snd f))])
               = length (cbs @ [assembled_block parse f])"
    using Cons.prems(2) by simp
  show ?case
    by (simp add: block_fold [OF ok Cons.prems(2)] Cons.IH [OF rest len])
qed

text \<open>The \<^verbatim>\<open>MessageDelta\<close> events leave the stop reason and the usage of the last one
  that carries them.\<close>

lemma latest_Cons:
  "latest (x # xs) = (case latest xs of None \<Rightarrow> x | Some y \<Rightarrow> Some y)"
  by (cases x) (simp_all add: latest_def Let_def List.map_filter_simps)

lemma message_deltas_fold:
  assumes "list_all (\<lambda>e. ev_type e = MessageDelta) mds"
  shows "foldl (process_event parse) (st\<lparr>response := Some r\<rparr>) mds
           = st\<lparr>response :=
                  Some (r\<lparr>resp_stop_reason :=
                            (case latest (map ev_stop_reason mds) of
                               None \<Rightarrow> resp_stop_reason r | Some sr \<Rightarrow> Some sr),
                          resp_usage :=
                            (case latest (map ev_usage mds) of
                               None \<Rightarrow> resp_usage r | Some u \<Rightarrow> u)\<rparr>)\<rparr>"
  using assms
proof (induction mds arbitrary: r)
  case Nil
  show ?case by (simp add: latest_def)
next
  case (Cons e mds)
  from Cons.prems have e: "ev_type e = MessageDelta"
    and rest: "list_all (\<lambda>e. ev_type e = MessageDelta) mds"
    by simp_all
  have step: "process_event parse (st\<lparr>response := Some r\<rparr>) e
                = st\<lparr>response :=
                       Some (r\<lparr>resp_stop_reason :=
                                 (case ev_stop_reason e of
                                    None \<Rightarrow> resp_stop_reason r | Some sr \<Rightarrow> Some sr),
                               resp_usage :=
                                 (case ev_usage e of None \<Rightarrow> resp_usage r | Some u \<Rightarrow> u)\<rparr>)\<rparr>"
    using e by (simp add: process_event_def Let_def split: option.splits)
  show ?case
    by (simp add: step Cons.IH [OF rest] latest_Cons split: option.splits)
qed

text \<open>The replay of the events of a complete message holds the assembled response.\<close>

lemma replay_complete_message:
  assumes "complete_message evs s m fs mds p"
  shows "response (replay parse evs) = Some (assembled_response parse m fs mds)"
proof -
  let ?new = "StreamingParser_new []"
  let ?blocks = "map (assembled_block parse) fs"
  let ?frags = "map (\<lambda>f. delta_texts ''input_json_delta'' delta_partial_json (fst (snd f))) fs"
  let ?st2 = "?new\<lparr>content_blocks := ?blocks, partial_jsons := ?frags\<rparr>"
  let ?r = "(m\<lparr>resp_content := []\<rparr>)
              \<lparr>resp_stop_reason :=
                 (case latest (map ev_stop_reason mds) of
                    None \<Rightarrow> resp_stop_reason (m\<lparr>resp_content := []\<rparr>) | Some sr \<Rightarrow> Some sr),
               resp_usage :=
                 (case latest (map ev_usage mds) of
                    None \<Rightarrow> resp_usage (m\<lparr>resp_content := []\<rparr>) | Some u \<Rightarrow> u)\<rparr>"
  from assms have evs: "evs = s # concat (map block_events fs) @ mds @ [p]"
    and s: "ev_type s = MessageStart" "ev_message s = Some m"
    and fs: "frames_ok 0 fs"
    and mds: "list_all (\<lambda>e. ev_type e = MessageDelta) mds"
    and p: "ev_type p = MessageStop"
    by (simp_all add: complete_message_def)
  have a: "process_event parse ?new s
             = (?new\<lparr>response := Some (m\<lparr>resp_content := []\<rparr>)\<rparr>)
                 \<lparr>content_blocks := [], partial_jsons := []\<rparr>"
    using s by (simp add: process_event_def StreamingParser_new_def)
  from fs have fs': "frames_ok (length ([] :: ContentBlock list)) fs" by simp
  have b: "foldl (process_event parse) (process_event parse ?new s)
             (concat (map block_events fs))
             = ?st2\<lparr>response := Some (m\<lparr>resp_content := []\<rparr>)\<rparr>"
    unfolding a by (subst blocks_fold [OF fs']) simp_all
  have c: "foldl (process_event parse) (?st2\<lparr>response := Some (m\<lparr>resp_content := []\<rparr>)\<rparr>) mds
             = ?st2\<lparr>response := Some ?r\<rparr>"
    using mds by (rule message_deltas_fold)
  have d: "response (process_event parse (?st2\<lparr>response := Some ?r\<rparr>) p)
             = Some (?r\<lparr>resp_content := ?blocks\<rparr>)"
    using p by (simp add: process_event_def)
  have "replay parse evs
          = process_event parse
              (foldl (process_event parse)
                 (foldl (process_event parse) (process_event parse ?new s)
                    (concat (map block_events fs))) mds) p"
    by (simp add: replay_def evs)
  then have "response (replay parse evs) = Some (?r\<lparr>resp_content := ?blocks\<rparr>)"
    by (simp only: b c d)
  then show ?thesis
    by (simp add: assembled_response_def split: option.splits)
qed

text \<open>
  C1, as the claim states it, does not hold: \<^verbatim>\<open>MessageStop\<close> completes the response
  that \<^verbatim>\<open>MessageStart\<close> has created, behind the test that there is one, and creates
  none. A stream whose only frame is \<^verbatim>\<open>message_stop\<close> has a \<^verbatim>\<open>MessageStop\<close> event
  observed, and \<open>get_response\<close> returns none.
\<close>

theorem message_stop_without_message_start:
  "observed (finish example_parse (feed example_parse (StreamingParser_new [])
       (''data: '' @ json_text_message_stop @ [CHR 0x0A]))) MessageStop
   \<and> get_response (finish example_parse (feed example_parse (StreamingParser_new [])
       (''data: '' @ json_text_message_stop @ [CHR 0x0A]))) = None"
  by code_simp

text \<open>
  A stream cut off after the first frames of a message is another matter. \<open>get_response\<close>
  does not look at the completion flag: after a \<^verbatim>\<open>message_start\<close> frame, the start of a
  text block and one text delta, it returns the message of the first frame with an empty
  content, although the block array holds the text received and the parser is not
  complete.
\<close>

lemma truncated_stream_skeleton:
  "get_response (finish example_parse (foldl (feed example_parse) (StreamingParser_new [])
       [''data: '' @ json_text_message_usage @ [CHR 0x0A],
        ''data: '' @ json_text_block_start @ [CHR 0x0A]
          @ ''data: '' @ json_text_script_delta @ [CHR 0x0A]]))
     = Some \<lparr>resp_id = [], resp_model = [], resp_stop_reason = None, resp_content = [],
             resp_usage = \<lparr>input_tokens = 10, output_tokens = 5, cache_read_tokens = 0,
                           cache_creation_tokens = 0\<rparr>\<rparr>
   \<and> content_blocks (finish example_parse (foldl (feed example_parse) (StreamingParser_new [])
       [''data: '' @ json_text_message_usage @ [CHR 0x0A],
        ''data: '' @ json_text_block_start @ [CHR 0x0A]
          @ ''data: '' @ json_text_script_delta @ [CHR 0x0A]]))
     = [TextContent ''<idascript>print(1)</idascript>'']
   \<and> \<not> is_complete (finish example_parse (foldl (feed example_parse) (StreamingParser_new [])
       [''data: '' @ json_text_message_usage @ [CHR 0x0A],
        ''data: '' @ json_text_block_start @ [CHR 0x0A]
          @ ''data: '' @ json_text_script_delta @ [CHR 0x0A]]))"
  by code_simp

text \<open>
  C1, amended. After any sequence of \<open>feed\<close> calls followed by \<open>finish\<close> on a new parser:
  when no \<^verbatim>\<open>MessageStart\<close> event carrying a message was observed, \<open>get_response\<close> returns
  none, whether a \<^verbatim>\<open>MessageStop\<close> event was observed or not; when such a
  \<^verbatim>\<open>MessageStart\<close> was observed and the last event observed, pings aside, is a
  \<^verbatim>\<open>MessageStop\<close>, \<open>get_response\<close> returns a response whose content is the whole block
  array of the parser; and when the events observed, pings aside, are those of one
  complete message in the order of the protocol (a \<^verbatim>\<open>MessageStart\<close> carrying a message,
  then for each block 0, 1, ... in turn its \<^verbatim>\<open>ContentBlockStart\<close>, its
  \<^verbatim>\<open>ContentBlockDelta\<close> events and its \<^verbatim>\<open>ContentBlockStop\<close>, then \<^verbatim>\<open>MessageDelta\<close>
  events, then a \<^verbatim>\<open>MessageStop\<close>), \<open>get_response\<close> returns the fully assembled response:
  that message with, as its content, the blocks in order, each with the texts of its
  deltas appended and, for a tool-use block, the parsed fragments as input, and with the
  stop reason and the usage of the last \<^verbatim>\<open>MessageDelta\<close> that carries them. What
  \<open>get_response\<close> returns for a message that has started and has not stopped is not part of
  the statement.
\<close>

theorem get_response_assembled:
  "(\<not> observed_message (finish parse (foldl (feed parse) (StreamingParser_new []) chunks))
      \<longrightarrow> get_response (finish parse (foldl (feed parse) (StreamingParser_new []) chunks)) = None)
   \<and> (observed_message (finish parse (foldl (feed parse) (StreamingParser_new []) chunks))
       \<and> filter not_ping
            (callback (finish parse (foldl (feed parse) (StreamingParser_new []) chunks))) \<noteq> []
       \<and> ev_type (last (filter not_ping
            (callback (finish parse (foldl (feed parse) (StreamingParser_new []) chunks)))))
           = MessageStop
      \<longrightarrow> map_option resp_content
            (get_response (finish parse (foldl (feed parse) (StreamingParser_new []) chunks)))
            = Some (content_blocks
                      (finish parse (foldl (feed parse) (StreamingParser_new []) chunks))))
   \<and> (complete_message
         (filter not_ping
            (callback (finish parse (foldl (feed parse) (StreamingParser_new []) chunks))))
         s m fs mds p
      \<longrightarrow> get_response (finish parse (foldl (feed parse) (StreamingParser_new []) chunks))
            = Some (assembled_response parse m fs mds))"
proof (intro conjI impI)
  let ?st = "finish parse (foldl (feed parse) (StreamingParser_new []) chunks)"
  assume "\<not> observed_message ?st"
  with parser_inv_finish [OF parser_inv_feeds [OF parser_inv_new], of parse parse chunks]
  show "get_response ?st = None"
    by (simp add: parser_inv_def get_response_def)
next
  let ?st = "finish parse (foldl (feed parse) (StreamingParser_new []) chunks)"
  let ?evs = "filter not_ping (callback ?st)"
  assume a: "observed_message ?st \<and> ?evs \<noteq> [] \<and> ev_type (last ?evs) = MessageStop"
  from a have evs: "?evs = butlast ?evs @ [last ?evs]" by simp
  have eq: "?st\<lparr>buffer := [], callback := []\<rparr> = replay parse ?evs"
    by (rule state_replay)
  from eq have r: "response ?st = response (replay parse ?evs)"
    by (simp flip: eq)
  from eq have c: "content_blocks ?st = content_blocks (replay parse ?evs)"
    by (simp flip: eq)
  from a parser_inv_finish [OF parser_inv_feeds [OF parser_inv_new], of parse parse chunks]
  have "response ?st \<noteq> None"
    by (simp add: parser_inv_def)
  with r have "response (replay parse (butlast ?evs @ [last ?evs])) \<noteq> None"
    using evs by simp
  with a have "map_option resp_content (response (replay parse (butlast ?evs @ [last ?evs])))
                 = Some (content_blocks (replay parse (butlast ?evs @ [last ?evs])))"
    by (intro replay_message_stop) simp_all
  with evs have "map_option resp_content (response (replay parse ?evs))
                   = Some (content_blocks (replay parse ?evs))"
    by simp
  then show "map_option resp_content (get_response ?st) = Some (content_blocks ?st)"
    by (simp only: r c get_response_def)
next
  let ?st = "finish parse (foldl (feed parse) (StreamingParser_new []) chunks)"
  let ?evs = "filter not_ping (callback ?st)"
  assume c: "complete_message ?evs s m fs mds p"
  have eq: "?st\<lparr>buffer := [], callback := []\<rparr> = replay parse ?evs"
    by (rule state_replay)
  from eq have "response ?st = response (replay parse ?evs)"
    by (simp flip: eq)
  also have "\<dots> = Some (assembled_response parse m fs mds)"
    using c by (rule replay_complete_message)
  finally show "get_response ?st = Some (assembled_response parse m fs mds)"
    by (simp add: get_response_def)
qed

theorem get_response_assembled_witness:
  "\<not> observed_message
       (finish example_parse (foldl (feed example_parse) (StreamingParser_new [])
          [''data: '' @ json_text_message_stop @ [CHR 0x0A]]))
   \<and> get_response
       (finish example_parse (foldl (feed example_parse) (StreamingParser_new [])
          [''data: '' @ json_text_message_stop @ [CHR 0x0A]])) = None
   \<and> (observed_message
         (finish message_parse
            (foldl (feed message_parse) (StreamingParser_new []) example_message_chunks))
       \<and> filter not_ping
            (callback (finish message_parse
               (foldl (feed message_parse) (StreamingParser_new []) example_message_chunks)))
           \<noteq> []
       \<and> ev_type (last (filter not_ping
            (callback (finish message_parse
               (foldl (feed message_parse) (StreamingParser_new []) example_message_chunks)))))
           = MessageStop)
   \<and> map_option resp_content
       (get_response
          (finish message_parse
             (foldl (feed message_parse) (StreamingParser_new []) example_message_chunks)))
       = Some (content_blocks
          (finish message_parse
             (foldl (feed message_parse) (StreamingParser_new []) example_message_chunks)))
   \<and> complete_message
       (filter not_ping
          (callback (finish message_parse
             (foldl (feed message_parse) (StreamingParser_new []) example_message_chunks))))
       (event_of json_text_message_usage) example_message example_frames
       [event_of json_text_message_delta] (event_of json_text_message_stop)
   \<and> get_response
       (finish message_parse
          (foldl (feed message_parse) (StreamingParser_new []) example_message_chunks))
       = Some example_assembled"
proof -
  have a: "\<not> observed_message
       (finish example_parse (foldl (feed example_parse) (StreamingParser_new [])
          [''data: '' @ json_text_message_stop @ [CHR 0x0A]]))"
    by code_simp
  have b: "observed_message
         (finish message_parse
            (foldl (feed message_parse) (StreamingParser_new []) example_message_chunks))
       \<and> filter not_ping
            (callback (finish message_parse
               (foldl (feed message_parse) (StreamingParser_new []) example_message_chunks)))
           \<noteq> []
       \<and> ev_type (last (filter not_ping
            (callback (finish message_parse
               (foldl (feed message_parse) (StreamingParser_new []) example_message_chunks)))))
           = MessageStop"
    by code_simp
  have c: "complete_message
       (filter not_ping
          (callback (finish message_parse
             (foldl (feed message_parse) (StreamingParser_new []) example_message_chunks))))
       (event_of json_text_message_usage) example_message example_frames
       [event_of json_text_message_delta] (event_of json_text_message_stop)"
    by code_simp
  have v: "assembled_response message_parse example_message example_frames
             [event_of json_text_message_delta] = example_assembled"
    by code_simp
  note n = get_response_assembled [THEN conjunct1, rule_format, OF a]
  note g = get_response_assembled [THEN conjunct2, THEN conjunct1, rule_format, OF b]
  note f = get_response_assembled [THEN conjunct2, THEN conjunct2, rule_format, OF c]
  show ?thesis
    by (intro conjI a n b g c) (simp only: f v)
qed


section \<open>Properties of the script blocks\<close>

text \<open>
  C5. For the text \<open>Let's check: <idascript>print(1+1)</idascript> done.\<close> the extraction
  gives first the block with the code \<open>print(1+1)\<close> and the preceding text
  \<open>Let's check: \<close> (followed by the block for the trailing text), and stripping the blocks
  gives \<open>Let's check:  done.\<close>
\<close>

theorem extract_and_strip_example:
  "extract_idascript_blocks ''Let's check: <idascript>print(1+1)</idascript> done.''
     = [\<lparr>code = ''print(1+1)'', preceding_text = ''Let's check: ''\<rparr>,
        \<lparr>code = [], preceding_text = '' done.''\<rparr>]
   \<and> strip_idascript_blocks ''Let's check: <idascript>print(1+1)</idascript> done.''
     = ''Let's check:  done.''"
  by code_simp


section \<open>Properties of the serialization\<close>

text \<open>
  C7. The JSON of a request has the key \<open>tools\<close> exactly when the tool list is not empty,
  \<open>temperature\<close> exactly when a temperature is set, \<open>thinking\<close> exactly when a thinking
  configuration is present and enabled, \<open>system\<close> exactly when the system prompt is not
  empty, and \<open>stream\<close> exactly when streaming is on. An absent field has no key at all.
\<close>

theorem request_omits_absent_fields:
  "json_contains (to_json_CreateMessageRequest r) ''tools'' = (tools r \<noteq> [])
   \<and> json_contains (to_json_CreateMessageRequest r) ''temperature'' = (temperature r \<noteq> None)
   \<and> json_contains (to_json_CreateMessageRequest r) ''thinking''
       = (case thinking r of None \<Rightarrow> False | Some c \<Rightarrow> enabled c)
   \<and> json_contains (to_json_CreateMessageRequest r) ''system'' = (system r \<noteq> [])
   \<and> json_contains (to_json_CreateMessageRequest r) ''stream'' = stream r"
  by (auto simp: to_json_CreateMessageRequest_def Let_def update_conv' split: option.splits)



section \<open>Properties of the usage accounting\<close>

















section \<open>Properties of the agent loop\<close>

lemma execute_script_executed:
  assumes "script_executor env = Some exec"
  shows "executed (fst (execute_script env st c)) = executed st @ [c]
         \<and> client (fst (execute_script env st c)) = client st"
  using assms by (simp add: execute_script_def Let_def)

lemma run_blocks_executed:
  assumes "script_executor env = Some exec"
  shows "fst (snd (run_blocks env st bs scripts outputs))
           = scripts @ filter (\<lambda>c. c \<noteq> []) (map code bs)
         \<and> executed (fst (run_blocks env st bs scripts outputs))
           = executed st @ filter (\<lambda>c. c \<noteq> []) (map code bs)
         \<and> client (fst (run_blocks env st bs scripts outputs)) = client st"
proof (induction bs arbitrary: st scripts outputs)
  case Nil
  show ?case by simp
next
  case (Cons b bs)
  show ?case
  proof (cases "code b \<noteq> []")
    case True
    obtain st1 out where e: "execute_script env st (code b) = (st1, out)"
      by (cases "execute_script env st (code b)")
    with execute_script_executed [OF assms, of st "code b"]
    have "executed st1 = executed st @ [code b]" and "client st1 = client st"
      by simp_all
    with True e Cons.IH [of st1 "scripts @ [code b]" "outputs @ [out]"] show ?thesis
      by simp
  next
    case False
    with Cons.IH [of st scripts outputs] show ?thesis by simp
  qed
qed

text \<open>
  C3, as the claim states it, does not hold: the turn limit is only tested at the head of
  the loop, after the scripts of a reply have run. With a limit of one turn and a reply
  that holds the script \<open>print(1)\<close>, the script executor is called with that script
  before \<open>process_message\<close> returns.
\<close>

theorem last_turn_scripts_are_executed:
  "executed (fst (process_message example_script_env example_core_one_turn ''hello''))
     = [''print(1)'']
   \<and> res_success (snd (process_message example_script_env example_core_one_turn ''hello''))
   \<and> res_turns_used (snd (process_message example_script_env example_core_one_turn ''hello''))
       = max_turns (options example_core_one_turn)"
  by code_simp

text \<open>
  C3, amended. When the last turn the limit allows receives a reply that contains script
  directives, \<open>process_message\<close> (in network mode, with a script executor) hands every
  directive with non-empty code to the script executor, in order, adds their output to the
  conversation, and then stops: it makes no further transport call and returns a success
  result whose answer is the accumulated text with the script blocks stripped.
\<close>

theorem budget_exhausted_after_scripts:
  assumes last: "turn + 1 = max_turns (options st)" and nc: "\<not> cancelled st"
    and call: "client_call env st (build_request st) = (st1, Some r)"
    and has: "has_idascript_blocks (get_text (resp_content r))"
    and ex: "script_executor env = Some exec"
    and ps: "process_scripts env (record_response st1 r) (get_text (resp_content r))
               = (st3, scripts, outputs)"
    and ne: "scripts \<noteq> []"
  shows "scripts = filter (\<lambda>c. c \<noteq> [])
                     (map code (extract_idascript_blocks (get_text (resp_content r))))
       \<and> executed st3 = executed st1 @ scripts
       \<and> process_loop env st turn full
           = after_loop env (record_outputs st3 outputs) (turn + 1)
               (full @ get_text (resp_content r))
       \<and> client (fst (process_loop env st turn full)) = client st1
       \<and> res_success (snd (process_loop env st turn full))
       \<and> res_response (snd (process_loop env st turn full))
           = strip_idascript_blocks (full @ get_text (resp_content r))"
proof -
  let ?t = "get_text (resp_content r)"
  let ?st2 = "record_response st1 r"
  from run_blocks_executed [OF ex, of ?st2 "extract_idascript_blocks ?t" "[]" "[]"] ps
  have s: "scripts = filter (\<lambda>c. c \<noteq> []) (map code (extract_idascript_blocks ?t))"
    and e: "executed st3 = executed ?st2 @ scripts"
    and c: "client st3 = client ?st2"
    by (simp_all add: process_scripts_def)
  have tb: "turn_body env st full = (record_outputs st3 outputs, full @ ?t, ContinueLoop)"
    using call has ps ne by (simp add: turn_body_def Let_def)
  from client_call_options [of env st "build_request st"] call
  have o1: "options st1 = options st" by simp
  from process_scripts_options [of env ?st2 ?t] ps
  have "options st3 = options st" by (simp add: record_response_def o1)
  then have o3: "options (record_outputs st3 outputs) = options st"
    by (simp add: record_outputs_def)
  have "process_loop env st turn full
          = process_loop env (record_outputs st3 outputs) (turn + 1) (full @ ?t)"
    using last nc tb by (simp add: process_loop.simps [of env st turn full])
  also have "\<dots> = after_loop env (record_outputs st3 outputs) (turn + 1) (full @ ?t)"
  proof -
    have "\<not> turn + 1 < max_turns (options (record_outputs st3 outputs))"
      using last o3 by simp
    then show ?thesis
      by (subst process_loop.simps) simp
  qed
  finally have pl: "process_loop env st turn full
          = after_loop env (record_outputs st3 outputs) (turn + 1) (full @ ?t)" .
  show ?thesis
    using s e c pl by (simp add: after_loop_def record_outputs_def record_response_def)
qed

theorem budget_exhausted_after_scripts_witness:
  "0 + 1 = max_turns (options example_core_one_turn)
   \<and> \<not> cancelled example_core_one_turn
   \<and> client_call example_script_env example_core_one_turn (build_request example_core_one_turn)
       = (example_after_call, Some example_reply)
   \<and> has_idascript_blocks (get_text (resp_content example_reply))
   \<and> script_executor example_script_env = Some example_executor
   \<and> process_scripts example_script_env (record_response example_after_call example_reply)
        (get_text (resp_content example_reply))
       = (example_after_scripts, [''print(1)''], [''1''])
   \<and> executed example_after_scripts = executed example_after_call @ [''print(1)'']
   \<and> client (fst (process_loop example_script_env example_core_one_turn 0 []))
       = client example_after_call
   \<and> res_success (snd (process_loop example_script_env example_core_one_turn 0 []))
   \<and> res_response (snd (process_loop example_script_env example_core_one_turn 0 []))
       = strip_idascript_blocks ([] @ get_text (resp_content example_reply))"
proof -
  have a: "0 + 1 = max_turns (options example_core_one_turn)"
    by (simp add: example_core_one_turn_def example_core_def)
  have b: "\<not> cancelled example_core_one_turn"
    by (simp add: example_core_one_turn_def example_core_def)
  have c: "client_call example_script_env example_core_one_turn
             (build_request example_core_one_turn)
           = (example_after_call, Some example_reply)"
    by code_simp
  have d: "has_idascript_blocks (get_text (resp_content example_reply))"
    by code_simp
  have e: "script_executor example_script_env = Some example_executor"
    by (simp add: example_script_env_def example_env_def)
  have f: "process_scripts example_script_env (record_response example_after_call example_reply)
             (get_text (resp_content example_reply))
           = (example_after_scripts, [''print(1)''], [''1''])"
    by code_simp
  have g: "[''print(1)''] \<noteq> ([] :: string list)"
    by simp
  note th = budget_exhausted_after_scripts [OF a b c d e f g, of "[]"]
  note ran = th [THEN conjunct2, THEN conjunct1]
  note rest = th [THEN conjunct2, THEN conjunct2, THEN conjunct2]
  show ?thesis
    by (intro conjI a b c d e f ran rest [THEN conjunct1]
        rest [THEN conjunct2, THEN conjunct1] rest [THEN conjunct2, THEN conjunct2])
qed

text \<open>
  C2, as the claim states it, does not hold: \<open>process_message\<close> clears the cancellation
  flag when it starts. Called on a connected controller right after \<open>request_cancel\<close>, it
  makes its transport call and returns a success result that is not marked cancelled.
\<close>

theorem cancel_before_call_is_cleared:
  "cancelled (request_cancel example_core)
   \<and> res_success (snd (process_message example_env (request_cancel example_core) ''hello''))
   \<and> \<not> res_cancelled (snd (process_message example_env (request_cancel example_core) ''hello''))
   \<and> map_option http_requests
        (client (fst (process_message example_env (request_cancel example_core) ''hello'')))
       = Some 1"
  by code_simp

text \<open>
  C2, amended. A cancellation flag set before \<open>process_message\<close> is invoked on a connected
  controller has no effect on the call: the flag is cleared on entry, in network mode and
  in subprocess mode, and the call returns the same result, makes the same transport calls
  and leaves the same state as with the flag unset.
\<close>

theorem cancel_flag_cleared_on_entry:
  assumes "is_connected st"
  shows "process_message env (st\<lparr>cancelled := b\<rparr>) u = process_message env st u"
  using assms
  by (simp add: process_message_def process_message_cli_def is_connected_def)

theorem cancel_flag_cleared_on_entry_witness:
  "is_connected (request_cancel example_core)
   \<and> cancelled (request_cancel example_core)
   \<and> process_message example_env ((request_cancel example_core)\<lparr>cancelled := False\<rparr>) ''hello''
       = process_message example_env (request_cancel example_core) ''hello''"
proof -
  have c: "is_connected (request_cancel example_core)"
    by (simp add: is_connected_def request_cancel_def example_core_def)
  have d: "cancelled (request_cancel example_core)"
    by (simp add: request_cancel_def)
  from cancel_flag_cleared_on_entry [OF c, of example_env False "''hello''"] c d show ?thesis
    by simp
qed


section \<open>The shape of the extracted blocks\<close>

lemma starts_with_length: "starts_with p s \<Longrightarrow> length p \<le> length s"
proof -
  assume "starts_with p s"
  then have "length (take (length p) s) = length p"
    by (simp only: starts_with_def)
  then show ?thesis by simp
qed

lemma starts_with_append: "starts_with p s \<Longrightarrow> starts_with p (s @ r)"
  using starts_with_length [of p s] by (simp add: starts_with_def)

lemma starts_with_append_long:
  "length p \<le> length s \<Longrightarrow> starts_with p (s @ r) = starts_with p s"
  by (simp add: starts_with_def)

lemma find_sub_append:
  "find_sub p a = Some i \<Longrightarrow> find_sub p (a @ r) = Some i"
proof (induction a arbitrary: i)
  case Nil
  then have "p = []" and "i = 0" by (simp_all split: if_splits)
  then show ?case by (cases r) (simp_all add: starts_with_def)
next
  case (Cons c cs)
  show ?case
  proof (cases "starts_with p (c # cs)")
    case True
    with Cons.prems starts_with_append [OF True, of r] show ?thesis by simp
  next
    case False
    with Cons.prems obtain k where k: "find_sub p cs = Some k" and i: "i = Suc k"
      by auto
    from find_sub_bound [OF k] have "length p \<le> length (c # cs)" by simp
    then have "starts_with p ((c # cs) @ r) = starts_with p (c # cs)"
      by (rule starts_with_append_long)
    with False have "\<not> starts_with p ((c # cs) @ r)" by simp
    with Cons.IH [OF k] i show ?thesis by simp
  qed
qed

lemma regex_search_segment:
  assumes "clean_segment (p, b)"
  shows "regex_search_script (p @ open_tag @ b @ close_tag @ r)
           = Some (length p, b, length open_tag + length b + length close_tag)"
proof -
  from assms have o: "find_sub open_tag (p @ open_tag) = Some (length p)"
    and c: "find_sub close_tag (b @ close_tag) = Some (length b)"
    by (simp_all add: clean_segment_def)
  from find_sub_append [OF o, of "b @ close_tag @ r"]
  have o': "find_sub open_tag (p @ open_tag @ b @ close_tag @ r) = Some (length p)"
    by simp
  from find_sub_append [OF c, of r]
  have c': "find_sub close_tag (b @ close_tag @ r) = Some (length b)"
    by simp
  show ?thesis
    by (simp add: regex_search_script_def o' c')
qed

lemma extract_loop_segment:
  assumes "clean_segment (p, b)"
    and "drop last_end text = p @ open_tag @ b @ close_tag @ r"
  shows "extract_loop text last_end blocks
           = extract_loop text (last_end + length (segment (p, b))) (blocks @ [block_of (p, b)])"
proof -
  from regex_search_segment [OF assms(1), of r] assms(2)
  have "regex_search_script (drop last_end text)
          = Some (length p, b, length open_tag + length b + length close_tag)"
    by simp
  then show ?thesis
    using assms(2)
    by (subst extract_loop.simps) (simp add: segment_def block_of_def add.commute add.left_commute)
qed

lemma extract_loop_segments:
  assumes "list_all clean_segment segs"
    and "drop last_end text = concat (map segment segs) @ t"
    and "last_end \<le> length text"
    and "regex_search_script t = None"
  shows "extract_loop text last_end blocks
           = (length text - length t, blocks @ map block_of segs)"
  using assms
proof (induction segs arbitrary: last_end blocks)
  case Nil
  then have d: "drop last_end text = t" by simp
  then have "length t = length text - last_end" by auto
  with Nil.prems(3) have "length text - length t = last_end" by simp
  with d Nil.prems(4) show ?case
    by (subst extract_loop.simps) simp
next
  case (Cons s segs)
  obtain p b where s: "s = (p, b)" by (cases s)
  let ?r = "concat (map segment segs) @ t"
  from Cons.prems(1) s have cs: "clean_segment (p, b)" and rest: "list_all clean_segment segs"
    by simp_all
  from Cons.prems(2) s have d: "drop last_end text = p @ open_tag @ b @ close_tag @ ?r"
    by (simp add: segment_def [of "(p, b)"])
  let ?n = "length (segment (p, b))"
  have d': "drop (last_end + ?n) text = ?r"
  proof -
    have "drop (last_end + ?n) text = drop ?n (drop last_end text)"
      by (simp add: add.commute)
    also have "\<dots> = ?r" by (simp add: d segment_def [of "(p, b)"])
    finally show ?thesis .
  qed
  have le: "last_end + ?n \<le> length text"
  proof -
    have "length (drop last_end text) = ?n + length ?r"
      by (simp add: d segment_def [of "(p, b)"])
    then show ?thesis using Cons.prems(3) by simp
  qed
  from extract_loop_segment [OF cs d]
  have "extract_loop text last_end blocks
          = extract_loop text (last_end + ?n) (blocks @ [block_of (p, b)])" .
  also from Cons.IH [OF rest d' le Cons.prems(4)]
  have "\<dots> = (length text - length t, (blocks @ [block_of (p, b)]) @ map block_of segs)" .
  finally show ?case by (simp add: s)
qed

lemma find_sub_split:
  "find_sub p s = Some i \<Longrightarrow> s = take i s @ p @ drop (i + length p) s"
proof (induction s arbitrary: i)
  case Nil
  then show ?case by (simp split: if_splits)
next
  case (Cons c cs)
  show ?case
  proof (cases "starts_with p (c # cs)")
    case True
    with Cons.prems have "i = 0" by simp
    moreover from True have "take (length p) (c # cs) = p" by (simp only: starts_with_def)
    with append_take_drop_id [of "length p" "c # cs"]
    have "c # cs = p @ drop (length p) (c # cs)"
      by simp
    ultimately show ?thesis by simp
  next
    case False
    with Cons.prems obtain k where k: "find_sub p cs = Some k" and i: "i = Suc k"
      by auto
    from Cons.IH [OF k] i show ?thesis by simp
  qed
qed

lemma find_sub_occurs:
  "\<exists>i. find_sub p (u @ p @ v) = Some i \<and> i \<le> length u"
proof (induction u)
  case Nil
  have "starts_with p (p @ v)" by (simp add: starts_with_def)
  then show ?case by (cases "p @ v") (simp_all add: starts_with_def)
next
  case (Cons c u)
  then obtain i where "find_sub p (u @ p @ v) = Some i" and "i \<le> length u" by blast
  then show ?case by simp
qed

lemma regex_search_None_iff:
  "(regex_search_script s = None) = (\<not> (\<exists>p b r. s = p @ open_tag @ b @ close_tag @ r))"
proof
  assume n: "regex_search_script s = None"
  show "\<not> (\<exists>p b r. s = p @ open_tag @ b @ close_tag @ r)"
  proof
    assume "\<exists>p b r. s = p @ open_tag @ b @ close_tag @ r"
    then obtain p b r where s: "s = p @ open_tag @ b @ close_tag @ r" by blast
    from find_sub_occurs [of open_tag p "b @ close_tag @ r"] s
    obtain i where i: "find_sub open_tag s = Some i" and le: "i \<le> length p" by auto
    let ?k = "i + length open_tag"
    have "drop ?k s = drop ?k (p @ open_tag @ b) @ close_tag @ r"
      using le by (simp add: s)
    with find_sub_occurs [of close_tag "drop ?k (p @ open_tag @ b)" r]
    obtain j where "find_sub close_tag (drop ?k s) = Some j" by auto
    with i have "regex_search_script s \<noteq> None"
      by (simp add: regex_search_script_def)
    with n show False by simp
  qed
next
  assume n: "\<not> (\<exists>p b r. s = p @ open_tag @ b @ close_tag @ r)"
  show "regex_search_script s = None"
  proof (rule ccontr)
    assume "regex_search_script s \<noteq> None"
    then obtain i j where i: "find_sub open_tag s = Some i"
      and j: "find_sub close_tag (drop (i + length open_tag) s) = Some j"
      by (auto simp: regex_search_script_def split: option.splits)
    let ?d = "drop (i + length open_tag) s"
    from find_sub_split [OF i] have "s = take i s @ open_tag @ ?d" .
    also from find_sub_split [OF j]
    have "?d = take j ?d @ close_tag @ drop (j + length close_tag) ?d" .
    finally have "s = take i s @ open_tag @ take j ?d @ close_tag @ drop (j + length close_tag) ?d" .
    with n show False by blast
  qed
qed

lemma find_sub_self: "find_sub p p = Some 0"
  by (cases p) (simp_all add: starts_with_def)

lemma find_sub_take:
  "find_sub p s = Some i \<Longrightarrow> find_sub p (take (i + length p) s) = Some i"
proof (induction s arbitrary: i)
  case Nil
  then show ?case by (simp split: if_splits)
next
  case (Cons c cs)
  show ?case
  proof (cases "starts_with p (c # cs)")
    case True
    with Cons.prems have "i = 0" by simp
    moreover from True have "take (length p) (c # cs) = p" by (simp only: starts_with_def)
    ultimately show ?thesis by (simp only: add_0 find_sub_self)
  next
    case False
    with Cons.prems obtain k where k: "find_sub p cs = Some k" and i: "i = Suc k"
      by auto
    have "take (length p) (c # take (k + length p) cs) = take (length p) (c # cs)"
      by (cases "length p") (simp_all add: min_def)
    with False have "\<not> starts_with p (c # take (k + length p) cs)"
      by (simp add: starts_with_def)
    with Cons.IH [OF k] i show ?thesis by simp
  qed
qed

lemma find_sub_clean:
  assumes "find_sub p s = Some i"
  shows "find_sub p (take i s @ p) = Some (length (take i s))"
proof -
  from find_sub_bound [OF assms] have le: "i \<le> length s" by simp
  from find_sub_split [OF assms] have "s = take i s @ p @ drop (i + length p) s" .
  then have "take (i + length p) s = take (i + length p) (take i s @ p @ drop (i + length p) s)"
    by simp
  also have "\<dots> = take i s @ p"
    using le by simp
  finally have "take (i + length p) s = take i s @ p" .
  with find_sub_take [OF assms] le show ?thesis by simp
qed

lemma decomposition_exists: "\<exists>segs t. decomposes s segs t"
proof (induction s rule: strip_idascript_blocks.induct)
  case (1 s)
  show ?case
  proof (cases "regex_search_script s")
    case None
    then have "decomposes s [] s"
      by (simp add: decomposes_def regex_search_None_iff)
    then show ?thesis by blast
  next
    case (Some m)
    obtain pos body len where m: "m = (pos, body, len)" by (cases m)
    with Some have r: "regex_search_script s = Some (pos, body, len)" by simp
    then obtain j where i: "find_sub open_tag s = Some pos"
      and j: "find_sub close_tag (drop (pos + length open_tag) s) = Some j"
      and body: "body = take j (drop (pos + length open_tag) s)"
      and len: "len = length open_tag + j + length close_tag"
      by (auto simp: regex_search_script_def split: option.splits)
    let ?d = "drop (pos + length open_tag) s"
    from "1.IH" [OF Some m [symmetric] refl]
    obtain segs t where rest: "decomposes (drop (pos + len) s) segs t" by blast
    from find_sub_bound [OF i] have le: "pos \<le> length s" by simp
    from find_sub_bound [OF j] have lj: "j \<le> length ?d" by simp
    have c: "clean_segment (take pos s, body)"
      using find_sub_clean [OF i] find_sub_clean [OF j] le lj
      by (simp add: clean_segment_def body)
    have eq: "j + length close_tag + (pos + length open_tag) = pos + len"
      by (simp add: len)
    from find_sub_split [OF i] have "s = take pos s @ open_tag @ ?d" .
    also from find_sub_split [OF j]
    have "?d = body @ close_tag @ drop (j + length close_tag) ?d"
      by (simp only: body)
    finally have "s = segment (take pos s, body) @ drop (pos + len) s"
      by (simp add: segment_def eq)
    with rest c have "decomposes s ((take pos s, body) # segs) t"
      by (simp add: decomposes_def)
    then show ?thesis by blast
  qed
qed

text \<open>
  C9. Every text decomposes into clean segments and a trailing text without marker pair,
  and for every such decomposition the extraction returns the blocks of the segments, in
  order, followed by one more block exactly when there is at least one segment and the
  trailing text is not empty; that block has empty code and the trailing text as its
  preceding text. So a text without marker pair (no segment) gives the empty list, with
  none of its text returned, and a text with at least one pair and a non-empty text after
  the closing tag of its last pair gives a list that ends with the extra block.
\<close>

theorem extract_blocks_shape:
  "(\<exists>segs t. decomposes text segs t)
   \<and> (\<forall>segs t. decomposes text segs t \<longrightarrow>
         extract_idascript_blocks text
           = map block_of segs
             @ (if segs \<noteq> [] \<and> t \<noteq> [] then [\<lparr>code = [], preceding_text = t\<rparr>] else []))"
proof (intro conjI allI impI)
  show "\<exists>segs t. decomposes text segs t"
    by (rule decomposition_exists)
next
  fix segs t
  assume "decomposes text segs t"
  then have a1: "text = concat (map segment segs) @ t"
    and a2: "list_all clean_segment segs"
    and a3: "\<not> (\<exists>p b r. t = p @ open_tag @ b @ close_tag @ r)"
    by (simp_all add: decomposes_def)
  from a3 have n: "regex_search_script t = None"
    by (simp add: regex_search_None_iff)
  have "drop 0 text = concat (map segment segs) @ t"
    by (simp add: a1)
  from extract_loop_segments [OF a2 this _ n, of "[]"]
  have l: "extract_loop text 0 [] = (length text - length t, map block_of segs)"
    by simp
  have d: "drop (length text - length t) text = t"
    by (simp add: a1)
  have "length t \<le> length text"
    by (simp add: a1)
  then have lt: "(length text - length t < length text) = (t \<noteq> [])"
    by (cases t) auto
  show "extract_idascript_blocks text
          = map block_of segs
            @ (if segs \<noteq> [] \<and> t \<noteq> [] then [\<lparr>code = [], preceding_text = t\<rparr>] else [])"
    by (simp add: extract_idascript_blocks_def l lt d)
qed

theorem extract_blocks_shape_witness:
  "decomposes ''Let's check: <idascript>print(1+1)</idascript> done.''
     [(''Let's check: '', ''print(1+1)'')] '' done.''
   \<and> extract_idascript_blocks ''Let's check: <idascript>print(1+1)</idascript> done.''
       = [\<lparr>code = ''print(1+1)'', preceding_text = ''Let's check: ''\<rparr>,
          \<lparr>code = [], preceding_text = '' done.''\<rparr>]"
proof -
  have n: "regex_search_script '' done.'' = None"
    by code_simp
  have c: "clean_segment (''Let's check: '', ''print(1+1)'')"
    by code_simp
  have s: "''Let's check: <idascript>print(1+1)</idascript> done.''
             = concat (map segment [(''Let's check: '', ''print(1+1)'')]) @ '' done.''"
    by code_simp
  have t: "trim ''print(1+1)'' = ''print(1+1)''"
    by code_simp
  note neg = n [unfolded regex_search_None_iff]
  from c have c': "list_all clean_segment [(''Let's check: '', ''print(1+1)'')]"
    by simp
  have d: "decomposes ''Let's check: <idascript>print(1+1)</idascript> done.''
     [(''Let's check: '', ''print(1+1)'')] '' done.''"
    unfolding decomposes_def by (intro conjI s c' neg)
  from extract_blocks_shape [of "''Let's check: <idascript>print(1+1)</idascript> done.''",
      THEN conjunct2, rule_format, OF d] t
  have "extract_idascript_blocks ''Let's check: <idascript>print(1+1)</idascript> done.''
       = [\<lparr>code = ''print(1+1)'', preceding_text = ''Let's check: ''\<rparr>,
          \<lparr>code = [], preceding_text = '' done.''\<rparr>]"
    by (simp add: block_of_def)
  with d show ?thesis by (intro conjI)
qed


end
